theory Spec2Isabelle
  imports Main "HOL-Library.AList"
begin

section \<open>Job lifecycle store (services/ai-agent/src/tasks/job_store.py)\<close>

text \<open>
  \<^verbatim>\<open>JobStatus\<close> is the four-valued string enum of \<^verbatim>\<open>src/api/schemas.py\<close>, and
  \<^verbatim>\<open>JobResult\<close> the pydantic model with its six fields. A \<^verbatim>\<open>datetime\<close> is a point on
  the UTC time line (an integer count of microseconds). The result payload
  \<^verbatim>\<open>dict[str, Any]\<close> is a list of key/value pairs.
\<close>

datatype JobStatus = PENDING | RUNNING | COMPLETED | FAILED

type_synonym datetime = int

type_synonym payload = "(string \<times> string) list"

record JobResult =
  job_id :: string
  status :: JobStatus
  created_at :: datetime
  completed_at :: "datetime option"
  result :: "payload option"
  error :: "string option"

text \<open>
  The store object. \<^verbatim>\<open>_memory_store\<close> is a Python dict, which keeps insertion order
  (\<^verbatim>\<open>list_jobs\<close> iterates over it), so it is an association list: assigning to a key
  that is present replaces the value in place, assigning to a new key appends
  (\<^const>\<open>AList.update\<close>). \<^verbatim>\<open>_redis_client\<close> is \<open>None\<close> when the connection could not be
  set up in \<^verbatim>\<open>_init_redis\<close>; otherwise it holds the contents of the Redis server, keyed by
  the full key. Both containers hold the job as \<^verbatim>\<open>_job_to_dict\<close> writes it and
  \<^verbatim>\<open>_dict_to_job\<close> reads it back: a field-for-field copy (enum value, ISO timestamps),
  with JSON text on the Redis side; the copy is kept here as the \<open>JobResult\<close> it decodes to.
\<close>

record JobStore =
  memory_store :: "(string \<times> JobResult) list"
  redis_client :: "(string \<times> JobResult) list option"

text \<open>
  What one call of a store operation meets outside the store: every call to the Redis
  client may raise, and the source catches and logs each of them (\<open>get_ok\<close>, \<open>set_ok\<close>:
  \<open>True\<close> when the \<^verbatim>\<open>get\<close> respectively \<^verbatim>\<open>setex\<close> goes through, \<open>False\<close> when it raises);
  \<open>now\<close> is what \<^verbatim>\<open>datetime.utcnow()\<close> returns.
\<close>

record call_env =
  get_ok :: bool
  set_ok :: bool
  now :: datetime

definition job_key :: "string \<Rightarrow> string" where
  "job_key jid = ''ai-agent:job:'' @ jid"

definition get_job :: "JobStore \<Rightarrow> call_env \<Rightarrow> string \<Rightarrow> JobResult option" where
  "get_job st env jid =
     (case redis_client st of
        None \<Rightarrow> map_of (memory_store st) jid
      | Some db \<Rightarrow>
          (case (if get_ok env then map_of db (job_key jid) else None) of
             Some job \<Rightarrow> Some job
           | None \<Rightarrow> map_of (memory_store st) jid))"

definition save_job :: "JobStore \<Rightarrow> call_env \<Rightarrow> JobResult \<Rightarrow> JobStore" where
  "save_job st env job =
     st\<lparr>memory_store := AList.update (job_id job) job (memory_store st),
        redis_client :=
          (case redis_client st of
             None \<Rightarrow> None
           | Some db \<Rightarrow>
               Some (if set_ok env then AList.update (job_key (job_id job)) job db else db))\<rparr>"

definition new_job :: "datetime \<Rightarrow> string \<Rightarrow> JobResult" where
  "new_job t jid =
     \<lparr>job_id = jid, status = PENDING, created_at = t,
      completed_at = None, result = None, error = None\<rparr>"

definition create_job :: "JobStore \<Rightarrow> call_env \<Rightarrow> string \<Rightarrow> JobResult \<times> JobStore" where
  "create_job st env jid = (new_job (now env) jid, save_job st env (new_job (now env) jid))"

text \<open>
  The three assignments of \<^verbatim>\<open>update_job\<close>, in the source's order, on the record that
  \<^verbatim>\<open>get_job\<close> returned. \<^verbatim>\<open>if status:\<close> tests a non-empty enum value, so it holds for
  every status that is passed.
\<close>

definition set_status :: "datetime \<Rightarrow> JobStatus option \<Rightarrow> JobResult \<Rightarrow> JobResult" where
  "set_status t new_status job =
     (case new_status of
        None \<Rightarrow> job
      | Some s \<Rightarrow>
          (if s = COMPLETED \<or> s = FAILED
           then job\<lparr>status := s, completed_at := Some t\<rparr>
           else job\<lparr>status := s\<rparr>))"

definition set_result :: "payload option \<Rightarrow> JobResult \<Rightarrow> JobResult" where
  "set_result r job = (case r of None \<Rightarrow> job | Some v \<Rightarrow> job\<lparr>result := Some v\<rparr>)"

definition set_error :: "string option \<Rightarrow> JobResult \<Rightarrow> JobResult" where
  "set_error e job = (case e of None \<Rightarrow> job | Some v \<Rightarrow> job\<lparr>error := Some v\<rparr>)"

definition update_job ::
  "JobStore \<Rightarrow> call_env \<Rightarrow> string \<Rightarrow> JobStatus option \<Rightarrow> payload option \<Rightarrow> string option \<Rightarrow>
   JobResult option \<times> JobStore" where
  "update_job st env jid new_status r e =
     (case get_job st env jid of
        None \<Rightarrow> (None, st)
      | Some job \<Rightarrow>
          (Some (set_error e (set_result r (set_status (now env) new_status job))),
           save_job st env (set_error e (set_result r (set_status (now env) new_status job)))))"

definition mark_running :: "JobStore \<Rightarrow> call_env \<Rightarrow> string \<Rightarrow> JobResult option \<times> JobStore" where
  "mark_running st env jid = update_job st env jid (Some RUNNING) None None"

definition mark_completed ::
  "JobStore \<Rightarrow> call_env \<Rightarrow> string \<Rightarrow> payload \<Rightarrow> JobResult option \<times> JobStore" where
  "mark_completed st env jid r = update_job st env jid (Some COMPLETED) (Some r) None"

definition mark_failed ::
  "JobStore \<Rightarrow> call_env \<Rightarrow> string \<Rightarrow> string \<Rightarrow> JobResult option \<times> JobStore" where
  "mark_failed st env jid e = update_job st env jid (Some FAILED) None (Some e)"

text \<open>The store of \<^verbatim>\<open>JobStore(use_redis=False)\<close>, and a store connected to an empty Redis.\<close>

definition memory_only :: JobStore where
  "memory_only = \<lparr>memory_store = [], redis_client = None\<rparr>"

definition with_redis :: JobStore where
  "with_redis = \<lparr>memory_store = [], redis_client = Some []\<rparr>"

text \<open>A call at time \<open>t\<close> whose Redis calls go through, and one whose \<^verbatim>\<open>setex\<close> raises.\<close>

definition at_time :: "datetime \<Rightarrow> call_env" where
  "at_time t = \<lparr>get_ok = True, set_ok = True, now = t\<rparr>"

definition write_lost :: "datetime \<Rightarrow> call_env" where
  "write_lost t = \<lparr>get_ok = True, set_ok = False, now = t\<rparr>"

subsection \<open>Listing\<close>

text \<open>
  \<^verbatim>\<open>list_jobs\<close>. The Redis \<^verbatim>\<open>scan\<close> loop receives the keys in batches, one batch per call
  of \<^verbatim>\<open>scan\<close>; the last batch is the one that comes with cursor 0. The batches are an input
  (\<open>batches\<close>). An exception raised by Redis during the loop is caught after the loop and
  leaves in \<^verbatim>\<open>jobs\<close> what was appended so far, which is what the loop gives on the batches
  cut at that point; \<open>[]\<close> stands for a first call that raises. A key whose \<^verbatim>\<open>get\<close> returns
  nothing (expired since the scan) is skipped.
\<close>

definition matches :: "JobStatus option \<Rightarrow> JobResult \<Rightarrow> bool" where
  "matches flt job = (case flt of None \<Rightarrow> True | Some s \<Rightarrow> status job = s)"

fun scan_keys ::
  "(string \<times> JobResult) list \<Rightarrow> JobStatus option \<Rightarrow> int \<Rightarrow> string list \<Rightarrow> JobResult list \<Rightarrow>
   JobResult list" where
  "scan_keys db flt limit [] jobs = jobs"
| "scan_keys db flt limit (key # keys) jobs =
     (case map_of db key of
        None \<Rightarrow> scan_keys db flt limit keys jobs
      | Some job \<Rightarrow>
          (if matches flt job
           then (if limit \<le> int (length (jobs @ [job])) then jobs @ [job]
                 else scan_keys db flt limit keys (jobs @ [job]))
           else scan_keys db flt limit keys jobs))"

fun scan_loop ::
  "(string \<times> JobResult) list \<Rightarrow> JobStatus option \<Rightarrow> int \<Rightarrow> string list list \<Rightarrow> JobResult list \<Rightarrow>
   JobResult list" where
  "scan_loop db flt limit [] jobs = jobs"
| "scan_loop db flt limit (keys # batches) jobs =
     (if batches = [] \<or> limit \<le> int (length (scan_keys db flt limit keys jobs))
      then scan_keys db flt limit keys jobs
      else scan_loop db flt limit batches (scan_keys db flt limit keys jobs))"

fun memory_loop :: "JobStatus option \<Rightarrow> int \<Rightarrow> JobResult list \<Rightarrow> JobResult list \<Rightarrow> JobResult list" where
  "memory_loop flt limit [] jobs = jobs"
| "memory_loop flt limit (job # rest) jobs =
     (if matches flt job \<and> \<not> list_ex (\<lambda>j. job_id j = job_id job) jobs
      then (if limit \<le> int (length (jobs @ [job])) then jobs @ [job]
            else memory_loop flt limit rest (jobs @ [job]))
      else memory_loop flt limit rest jobs)"

text \<open>The Python slice \<^verbatim>\<open>xs[:n]\<close>: a negative \<open>n\<close> counts from the end.\<close>

definition slice_to :: "int \<Rightarrow> 'a list \<Rightarrow> 'a list" where
  "slice_to n xs = (if 0 \<le> n then take (nat n) xs else take (nat (int (length xs) + n)) xs)"

text \<open>
  \<^verbatim>\<open>jobs.sort(key=lambda j: j.created_at, reverse=True)\<close> is a stable sort into descending
  order: the stable insertion sort \<^const>\<open>sort_key\<close> on the negated timestamp.
\<close>

definition redis_jobs :: "JobStore \<Rightarrow> string list list \<Rightarrow> JobStatus option \<Rightarrow> int \<Rightarrow> JobResult list" where
  "redis_jobs st batches flt limit =
     (case redis_client st of None \<Rightarrow> [] | Some db \<Rightarrow> scan_loop db flt limit batches [])"

definition list_jobs :: "JobStore \<Rightarrow> string list list \<Rightarrow> JobStatus option \<Rightarrow> int \<Rightarrow> JobResult list" where
  "list_jobs st batches flt limit =
     slice_to limit
       (sort_key (\<lambda>j. - created_at j)
          (memory_loop flt limit (map snd (memory_store st)) (redis_jobs st batches flt limit)))"

subsection \<open>Reachable stores\<close>

datatype store_op =
  Create string
| MarkRunning string
| MarkCompleted string payload
| MarkFailed string string

fun apply_op :: "JobStore \<Rightarrow> call_env \<times> store_op \<Rightarrow> JobStore" where
  "apply_op st (env, Create jid) = snd (create_job st env jid)"
| "apply_op st (env, MarkRunning jid) = snd (mark_running st env jid)"
| "apply_op st (env, MarkCompleted jid r) = snd (mark_completed st env jid r)"
| "apply_op st (env, MarkFailed jid e) = snd (mark_failed st env jid e)"

fun run_ops :: "JobStore \<Rightarrow> (call_env \<times> store_op) list \<Rightarrow> JobStore" where
  "run_ops st [] = st"
| "run_ops st (x # xs) = run_ops (apply_op st x) xs"

text \<open>The invariant of the data model on one record, and on every record a store holds.\<close>

definition consistent :: "JobResult \<Rightarrow> bool" where
  "consistent job =
     ((result job = None \<or> status job = COMPLETED) \<and>
      (error job = None \<or> status job = FAILED) \<and>
      (result job = None \<or> error job = None))"

definition store_consistent :: "JobStore \<Rightarrow> bool" where
  "store_consistent st =
     (list_all (\<lambda>(k, job). consistent job) (memory_store st) \<and>
      (case redis_client st of None \<Rightarrow> True | Some db \<Rightarrow> list_all (\<lambda>(k, job). consistent job) db))"

text \<open>
  A mark operation is \<^emph>\<open>allowed\<close> when the record it reads (if there is one) carries no
  field that the new status cannot go with: \<^verbatim>\<open>mark_running\<close> needs a record with neither
  result nor error, \<^verbatim>\<open>mark_completed\<close> one without an error, \<^verbatim>\<open>mark_failed\<close> one without a
  result. A second \<^verbatim>\<open>mark_completed\<close> on a completed record and a second \<^verbatim>\<open>mark_failed\<close>
  on a failed one are allowed. A sequence is allowed when each of its operations is, in
  the store it runs in.
\<close>

fun allowed_op :: "JobStore \<Rightarrow> call_env \<times> store_op \<Rightarrow> bool" where
  "allowed_op st (env, Create jid) = True"
| "allowed_op st (env, MarkRunning jid) =
     (case get_job st env jid of
        None \<Rightarrow> True
      | Some job \<Rightarrow> result job = None \<and> error job = None)"
| "allowed_op st (env, MarkCompleted jid r) =
     (case get_job st env jid of None \<Rightarrow> True | Some job \<Rightarrow> error job = None)"
| "allowed_op st (env, MarkFailed jid e) =
     (case get_job st env jid of None \<Rightarrow> True | Some job \<Rightarrow> result job = None)"

fun allowed_ops :: "JobStore \<Rightarrow> (call_env \<times> store_op) list \<Rightarrow> bool" where
  "allowed_ops st [] = True"
| "allowed_ops st (x # xs) = (allowed_op st x \<and> allowed_ops (apply_op st x) xs)"

text \<open>Every entry sits under the key of its own job id, as \<^verbatim>\<open>_save_job\<close> writes it.\<close>

definition well_keyed :: "JobStore \<Rightarrow> bool" where
  "well_keyed st =
     (list_all (\<lambda>(k, job). k = job_id job) (memory_store st) \<and>
      (case redis_client st of
         None \<Rightarrow> True
       | Some db \<Rightarrow> list_all (\<lambda>(k, job). k = job_key (job_id job)) db))"

section \<open>Dispatcher (services/ai-agent/src/api/routes.py)\<close>

text \<open>
  The four background wrappers (\<^verbatim>\<open>run_analysis_job\<close>, \<^verbatim>\<open>run_generation_job\<close>,
  \<^verbatim>\<open>run_requirements_parse_job\<close>, \<^verbatim>\<open>run_scenario_build_job\<close>) have one shape:
  \<^verbatim>\<open>mark_running\<close>, then inside \<^verbatim>\<open>try\<close> the unit of work and \<^verbatim>\<open>mark_completed\<close>, and
  \<^verbatim>\<open>except Exception as e: mark_failed(job_id, str(e))\<close>. The unit of work (agent
  construction, the awaited call and \<^verbatim>\<open>model_dump\<close>) is its outcome: it returns a payload,
  raises an exception of class \<^verbatim>\<open>Exception\<close> whose text is \<^verbatim>\<open>str(e)\<close>, or raises one that
  derives from \<^verbatim>\<open>BaseException\<close> only (\<^verbatim>\<open>asyncio.CancelledError\<close>, \<^verbatim>\<open>KeyboardInterrupt\<close>,
  \<^verbatim>\<open>SystemExit\<close>), which the \<^verbatim>\<open>except\<close> clause does not match and which leaves the wrapper.
\<close>

datatype work_outcome =
  Returned payload
| RaisedException string
| RaisedBaseException string

definition run_job ::
  "JobStore \<Rightarrow> call_env \<Rightarrow> call_env \<Rightarrow> string \<Rightarrow> work_outcome \<Rightarrow> (string + unit) \<times> JobStore" where
  "run_job st env1 env2 jid work =
     (case work of
        Returned r \<Rightarrow> (Inr (), snd (mark_completed (snd (mark_running st env1 jid)) env2 jid r))
      | RaisedException msg \<Rightarrow>
          (Inr (), snd (mark_failed (snd (mark_running st env1 jid)) env2 jid msg))
      | RaisedBaseException msg \<Rightarrow> (Inl msg, snd (mark_running st env1 jid)))"

text \<open>
  \<^verbatim>\<open>cancel_job\<close>. An \<^verbatim>\<open>HTTPException\<close> is the error value (its status code; the detail text
  is left out). \<^verbatim>\<open>celery_app.control.revoke\<close> does not touch the store and every exception
  of it is swallowed. \<open>env1\<close> is met by the \<^verbatim>\<open>get_job\<close> of the handler, \<open>env2\<close> by the
  \<^verbatim>\<open>mark_failed\<close> that follows.
\<close>

datatype http_error = HTTP_404_NOT_FOUND | HTTP_400_BAD_REQUEST

definition cancel_job ::
  "JobStore \<Rightarrow> call_env \<Rightarrow> call_env \<Rightarrow> string \<Rightarrow> (http_error + string) \<times> JobStore" where
  "cancel_job st env1 env2 jid =
     (case get_job st env1 jid of
        None \<Rightarrow> (Inl HTTP_404_NOT_FOUND, st)
      | Some job \<Rightarrow>
          (if status job = COMPLETED \<or> status job = FAILED
           then (Inl HTTP_400_BAD_REQUEST, st)
           else (Inr (''Job '' @ jid @ '' cancelled''),
                 snd (mark_failed st env2 jid ''Job cancelled by user''))))"

text \<open>The Python test \<^verbatim>\<open>sub in s\<close> on strings.\<close>

fun contains :: "string \<Rightarrow> string \<Rightarrow> bool" where
  "contains sub [] = (sub = [])"
| "contains sub (c # cs) = (take (length sub) (c # cs) = sub \<or> contains sub cs)"

section \<open>Distributed queue status (services/ai-agent/src/tasks/celery_app.py)\<close>

text \<open>
  \<^verbatim>\<open>AsyncResult\<close> is Celery's: the model takes what \<^verbatim>\<open>get_task_status\<close> reads from it,
  the state string \<^verbatim>\<open>result.status\<close>, the value \<^verbatim>\<open>result.result\<close> (as the text that
  \<^verbatim>\<open>str\<close> gives) and the answers of \<^verbatim>\<open>ready()\<close> and \<^verbatim>\<open>failed()\<close>. \<^verbatim>\<open>str.lower\<close> is
  modelled on ASCII letters.
\<close>

record AsyncResult =
  ar_status :: string
  ar_result :: string
  ar_ready :: bool
  ar_failed :: bool

record task_status =
  ts_task_id :: string
  ts_status :: string
  ts_result :: "string option"
  ts_error :: "string option"

definition status_map :: "(string \<times> string) list" where
  "status_map =
     [(''PENDING'', ''pending''),
      (''STARTED'', ''running''),
      (''SUCCESS'', ''completed''),
      (''FAILURE'', ''failed''),
      (''REVOKED'', ''failed'')]"

definition lower_char :: "char \<Rightarrow> char" where
  "lower_char c =
     (case map_of (zip ''ABCDEFGHIJKLMNOPQRSTUVWXYZ'' ''abcdefghijklmnopqrstuvwxyz'') c of
        None \<Rightarrow> c
      | Some l \<Rightarrow> l)"

definition lower :: "string \<Rightarrow> string" where
  "lower s = map lower_char s"

definition get_task_status :: "string \<Rightarrow> AsyncResult \<Rightarrow> task_status" where
  "get_task_status task_id res =
     \<lparr>ts_task_id = task_id,
      ts_status =
        (case map_of status_map (ar_status res) of
           Some s \<Rightarrow> s
         | None \<Rightarrow> lower (ar_status res)),
      ts_result = (if ar_ready res then Some (ar_result res) else None),
      ts_error = (if ar_failed res then Some (ar_result res) else None)\<rparr>"

section \<open>Process runner and script synthesis (backend/app/services/test_runner.py)\<close>

text \<open>
  \<^verbatim>\<open>_run_process\<close>. What the operating system does with the command is the input:
  \<^verbatim>\<open>create_subprocess_exec\<close> starts the process, raises \<^verbatim>\<open>FileNotFoundError\<close> or raises
  something else; \<^verbatim>\<open>wait_for(process.communicate(), timeout)\<close> returns the exit code with
  the two decoded outputs, raises \<^verbatim>\<open>asyncio.TimeoutError\<close> when the process has not exited
  after \<open>timeout\<close> seconds, or raises something else; \<^verbatim>\<open>process.kill()\<close>, which the
  timeout handler calls outside any \<^verbatim>\<open>try\<close> of its own, kills the process or raises
  (asyncio raises \<^verbatim>\<open>ProcessLookupError\<close> once the process has finished and its transport
  is closed, which is the case when the process exits between the expiry of the timeout
  and the call). What the handlers read of an exception is its text \<^verbatim>\<open>str(e)\<close>; for
  \<^verbatim>\<open>ProcessLookupError()\<close> that text is empty. Time itself is not modelled: the timeout
  appears only through the outcome \<open>TimeoutError\<close>.
\<close>

datatype spawn_outcome = Spawned | SpawnFileNotFound | SpawnRaised string

datatype wait_outcome = Exited int string string | TimeoutError | WaitRaised string

datatype kill_outcome = Killed | KillRaised string

record process_result =
  success :: bool
  stdout :: string
  stderr :: string
  exit_code :: int
  run_error :: "string option"

definition run_process :: "spawn_outcome \<Rightarrow> wait_outcome \<Rightarrow> kill_outcome \<Rightarrow> process_result" where
  "run_process spawned waited killed =
     (case spawned of
        SpawnFileNotFound \<Rightarrow>
          \<lparr>success = False, stdout = [], stderr = [], exit_code = - 1,
           run_error = Some ''npx not found. Make sure Node.js is installed.''\<rparr>
      | SpawnRaised msg \<Rightarrow>
          \<lparr>success = False, stdout = [], stderr = [], exit_code = - 1, run_error = Some msg\<rparr>
      | Spawned \<Rightarrow>
          (case waited of
             TimeoutError \<Rightarrow>
               (case killed of
                  Killed \<Rightarrow>
                    \<lparr>success = False, stdout = [], stderr = [], exit_code = - 1,
                     run_error = Some ''Test timed out''\<rparr>
                | KillRaised msg \<Rightarrow>
                    \<lparr>success = False, stdout = [], stderr = [], exit_code = - 1,
                     run_error = Some msg\<rparr>)
           | WaitRaised msg \<Rightarrow>
               \<lparr>success = False, stdout = [], stderr = [], exit_code = - 1,
                run_error = Some msg\<rparr>
           | Exited returncode out err \<Rightarrow>
               \<lparr>success = (returncode = 0), stdout = out, stderr = err,
                exit_code = returncode,
                run_error = (if returncode = 0 then None else Some ''Test failed'')\<rparr>))"

text \<open>
  The step dicts. A step is a Python dict from field names to values; the values that
  reach the synthesizer are strings, integers and \<^verbatim>\<open>None\<close> (the router passes
  \<^verbatim>\<open>model_dump()\<close> of \<^verbatim>\<open>TestStep\<close>). \<open>py_str\<close> is what an f-string writes for a value.
\<close>

datatype pyval = PyStr string | PyInt int | PyNone

type_synonym step = "(string \<times> pyval) list"

fun digits :: "nat \<Rightarrow> string" where
  "digits n =
     (if n < 10 then [''0123456789'' ! n]
      else digits (n div 10) @ [''0123456789'' ! (n mod 10)])"

declare digits.simps [simp del]

fun py_str :: "pyval \<Rightarrow> string" where
  "py_str (PyStr s) = s"
| "py_str (PyInt i) = (if i < 0 then CHR ''-'' # digits (nat (- i)) else digits (nat i))"
| "py_str PyNone = ''None''"

definition dict_get :: "step \<Rightarrow> string \<Rightarrow> pyval \<Rightarrow> pyval" where
  "dict_get d k dflt = (case map_of d k of None \<Rightarrow> dflt | Some v \<Rightarrow> v)"

definition sq :: string where
  "sq = [CHR 0x27]"

definition join_lines :: "string list \<Rightarrow> string" where
  "join_lines ls = concat (case ls of [] \<Rightarrow> [] | l # rest \<Rightarrow> l # map (\<lambda>x. CHR 0x0A # x) rest)"

text \<open>The statement, if any, that one step adds to \<^verbatim>\<open>lines\<close>.\<close>

definition cypress_statement :: "string \<Rightarrow> step \<Rightarrow> string list" where
  "cypress_statement base_url step =
     (let step_type = dict_get step ''type'' (PyStr '''');
          selector = dict_get step ''selector'' (PyStr '''');
          val = dict_get step ''value'' (PyStr '''')
      in if step_type = PyStr ''navigate''
         then [''    cy.visit('' @ sq @ py_str (dict_get step ''url'' (PyStr base_url)) @ sq @ '');'']
         else if step_type = PyStr ''click''
         then [''    cy.get('' @ sq @ py_str selector @ sq @ '').click();'']
         else if step_type = PyStr ''type''
         then [''    cy.get('' @ sq @ py_str selector @ sq @ '').type('' @ sq @ py_str val @ sq
               @ '');'']
         else if step_type = PyStr ''verify''
         then [''    cy.get('' @ sq @ py_str selector @ sq @ '').should('' @ sq @ ''exist'' @ sq
               @ '');'']
         else if step_type = PyStr ''wait''
         then [''    cy.wait('' @ py_str (dict_get step ''duration'' (PyInt 1000)) @ '');'']
         else [])"

definition steps_to_cypress :: "step list \<Rightarrow> string \<Rightarrow> string" where
  "steps_to_cypress steps base_url =
     join_lines
       ([''describe('' @ sq @ ''Test'' @ sq @ '', () => {'',
         ''  it('' @ sq @ ''runs the test steps'' @ sq @ '', () => {'']
        @ concat (map (cypress_statement base_url) steps)
        @ [''  });'', ''});''])"

definition playwright_statement :: "string \<Rightarrow> step \<Rightarrow> string list" where
  "playwright_statement base_url step =
     (let step_type = dict_get step ''type'' (PyStr '''');
          selector = dict_get step ''selector'' (PyStr '''');
          val = dict_get step ''value'' (PyStr '''')
      in if step_type = PyStr ''navigate''
         then [''  await page.goto('' @ sq @ py_str (dict_get step ''url'' (PyStr base_url)) @ sq
               @ '');'']
         else if step_type = PyStr ''click''
         then [''  await page.click('' @ sq @ py_str selector @ sq @ '');'']
         else if step_type = PyStr ''type''
         then [''  await page.fill('' @ sq @ py_str selector @ sq @ '', '' @ sq @ py_str val @ sq
               @ '');'']
         else if step_type = PyStr ''verify''
         then [''  await expect(page.locator('' @ sq @ py_str selector @ sq
               @ '')).toBeVisible();'']
         else if step_type = PyStr ''wait''
         then [''  await page.waitForTimeout('' @ py_str (dict_get step ''duration'' (PyInt 1000))
               @ '');'']
         else [])"

definition steps_to_playwright :: "step list \<Rightarrow> string \<Rightarrow> string" where
  "steps_to_playwright steps base_url =
     join_lines
       ([''const { test, expect } = require('' @ sq @ ''@playwright/test'' @ sq @ '');'',
         '''',
         ''test('' @ sq @ ''runs the test steps'' @ sq @ '', async ({ page }) => {'']
        @ concat (map (playwright_statement base_url) steps)
        @ [''});''])"

text \<open>How many times \<open>sub\<close> occurs in a text (at how many positions it starts).\<close>

fun occurrences :: "string \<Rightarrow> string \<Rightarrow> nat" where
  "occurrences sub [] = (if sub = [] then 1 else 0)"
| "occurrences sub (c # cs) =
     (if take (length sub) (c # cs) = sub then 1 else 0) + occurrences sub cs"

text \<open>The steps of the determinism example.\<close>

definition example_steps :: "step list" where
  "example_steps =
     [[(''type'', PyStr ''navigate''), (''url'', PyStr ''https://x'')],
      [(''type'', PyStr ''click''), (''selector'', PyStr ''#btn'')],
      [(''type'', PyStr ''type''), (''selector'', PyStr ''#inp''), (''value'', PyStr ''hello'')],
      [(''type'', PyStr ''wait''), (''duration'', PyInt 500)]]"

text \<open>The same steps, with the keys of each dict inserted in another order.\<close>

definition example_steps_reordered :: "step list" where
  "example_steps_reordered =
     [[(''url'', PyStr ''https://x''), (''type'', PyStr ''navigate'')],
      [(''selector'', PyStr ''#btn''), (''type'', PyStr ''click'')],
      [(''value'', PyStr ''hello''), (''selector'', PyStr ''#inp''), (''type'', PyStr ''type'')],
      [(''duration'', PyInt 500), (''type'', PyStr ''wait'')]]"

text \<open>A store with a Redis that holds two jobs and a local map that holds three.\<close>

definition example_store :: JobStore where
  "example_store =
     \<lparr>memory_store =
        [(''a'', \<lparr>job_id = ''a'', status = COMPLETED, created_at = 1, completed_at = Some 2,
                  result = Some [], error = None\<rparr>),
         (''b'', \<lparr>job_id = ''b'', status = RUNNING, created_at = 3, completed_at = None,
                  result = None, error = None\<rparr>),
         (''c'', \<lparr>job_id = ''c'', status = COMPLETED, created_at = 5, completed_at = Some 6,
                  result = Some [], error = None\<rparr>)],
      redis_client = Some
        [(''ai-agent:job:a'', \<lparr>job_id = ''a'', status = COMPLETED, created_at = 1,
                  completed_at = Some 2, result = Some [], error = None\<rparr>),
         (''ai-agent:job:d'', \<lparr>job_id = ''d'', status = COMPLETED, created_at = 9,
                  completed_at = Some 10, result = Some [], error = None\<rparr>)]\<rparr>"

text \<open>A store whose Redis holds a running job that the local map does not have.\<close>

definition redis_only_store :: JobStore where
  "redis_only_store =
     \<lparr>memory_store = [],
      redis_client = Some
        [(''ai-agent:job:j1'', \<lparr>job_id = ''j1'', status = RUNNING, created_at = 1,
                  completed_at = None, result = None, error = None\<rparr>)]\<rparr>"

section \<open>Properties of the job store\<close>

lemma map_of_update_same: "map_of (AList.update k v al) k = Some v"
  by (simp add: update_conv')

lemma list_all_update:
  "list_all P al \<Longrightarrow> P (k, v) \<Longrightarrow> list_all P (AList.update k v al)"
  by (induction al) auto

lemma map_of_list_all:
  "map_of al k = Some v \<Longrightarrow> list_all P al \<Longrightarrow> P (k, v)"
  by (induction al) (auto split: if_splits)

lemma job_key_inject: "job_key a = job_key b \<Longrightarrow> a = b"
  by (simp add: job_key_def)

lemma get_job_cases:
  assumes "get_job st env jid = Some job"
  shows "map_of (memory_store st) jid = Some job \<or>
         (\<exists>db. redis_client st = Some db \<and> map_of db (job_key jid) = Some job)"
  using assms by (auto simp: get_job_def split: option.splits if_splits)

lemma get_job_consistent:
  assumes "get_job st env jid = Some job" and "store_consistent st"
  shows "consistent job"
  using get_job_cases [OF assms(1)] assms(2)
  by (auto simp: store_consistent_def dest: map_of_list_all)

lemma get_job_job_id:
  assumes "get_job st env jid = Some job" and "well_keyed st"
  shows "job_id job = jid"
  using get_job_cases [OF assms(1)] assms(2)
  by (auto simp: well_keyed_def dest!: map_of_list_all dest: job_key_inject)

lemma save_job_consistent:
  "store_consistent st \<Longrightarrow> consistent job \<Longrightarrow> store_consistent (save_job st env job)"
  by (auto simp: store_consistent_def save_job_def list_all_update split: option.splits)

lemma save_job_well_keyed:
  "well_keyed st \<Longrightarrow> well_keyed (save_job st env job)"
  by (auto simp: well_keyed_def save_job_def list_all_update split: option.splits)

lemma save_job_memory:
  "map_of (memory_store (save_job st env job)) (job_id job) = Some job"
  by (simp add: save_job_def map_of_update_same)

lemma update_job_consistent:
  assumes "store_consistent st"
    and "case get_job st env jid of
           None \<Rightarrow> True
         | Some job \<Rightarrow> consistent (set_error e (set_result r (set_status (now env) s job)))"
  shows "store_consistent (snd (update_job st env jid s r e))"
  using assms by (cases "get_job st env jid") (simp_all add: update_job_def save_job_consistent)

lemma update_job_inconsistent:
  assumes "get_job st env jid = Some job"
    and "\<not> consistent (set_error e (set_result r (set_status (now env) s job)))"
  shows "\<not> store_consistent (snd (update_job st env jid s r e))"
proof
  let ?job' = "set_error e (set_result r (set_status (now env) s job))"
  assume c: "store_consistent (snd (update_job st env jid s r e))"
  have "map_of (memory_store (snd (update_job st env jid s r e))) (job_id ?job') = Some ?job'"
    using assms(1) by (simp add: update_job_def save_job_memory)
  then have "consistent ?job'"
    using c map_of_list_all [where P = "\<lambda>(k, job). consistent job"]
    by (fastforce simp: store_consistent_def)
  with assms(2) show False by simp
qed

lemma apply_op_consistent:
  assumes "store_consistent st" and "allowed_op st x"
  shows "store_consistent (apply_op st x)"
proof (cases x)
  case (Pair env op)
  show ?thesis
  proof (cases op)
    case (Create jid)
    have "consistent (new_job (now env) jid)" by (simp add: consistent_def new_job_def)
    then show ?thesis using Pair Create assms(1)
      by (simp add: create_job_def save_job_consistent)
  next
    case (MarkRunning jid)
    have "store_consistent (snd (update_job st env jid (Some RUNNING) None None))"
    proof (rule update_job_consistent [OF assms(1)], cases "get_job st env jid")
      case (Some job)
      then have "result job = None \<and> error job = None"
        using assms(2) Pair MarkRunning by simp
      then show "case get_job st env jid of
           None \<Rightarrow> True
         | Some job \<Rightarrow>
             consistent (set_error None (set_result None (set_status (now env) (Some RUNNING) job)))"
        using Some by (simp add: consistent_def set_status_def set_result_def set_error_def)
    qed simp
    then show ?thesis using Pair MarkRunning by (simp add: mark_running_def)
  next
    case (MarkCompleted jid r)
    have "store_consistent (snd (update_job st env jid (Some COMPLETED) (Some r) None))"
    proof (rule update_job_consistent [OF assms(1)], cases "get_job st env jid")
      case (Some job)
      then have "error job = None"
        using assms(2) Pair MarkCompleted by simp
      then show "case get_job st env jid of
           None \<Rightarrow> True
         | Some job \<Rightarrow>
             consistent
               (set_error None (set_result (Some r) (set_status (now env) (Some COMPLETED) job)))"
        using Some by (simp add: consistent_def set_status_def set_result_def set_error_def)
    qed simp
    then show ?thesis using Pair MarkCompleted by (simp add: mark_completed_def)
  next
    case (MarkFailed jid e)
    have "store_consistent (snd (update_job st env jid (Some FAILED) None (Some e)))"
    proof (rule update_job_consistent [OF assms(1)], cases "get_job st env jid")
      case (Some job)
      then have "result job = None"
        using assms(2) Pair MarkFailed by simp
      then show "case get_job st env jid of
           None \<Rightarrow> True
         | Some job \<Rightarrow>
             consistent
               (set_error (Some e) (set_result None (set_status (now env) (Some FAILED) job)))"
        using Some by (simp add: consistent_def set_status_def set_result_def set_error_def)
    qed simp
    then show ?thesis using Pair MarkFailed by (simp add: mark_failed_def)
  qed
qed

lemma apply_op_inconsistent:
  assumes "\<not> allowed_op st x"
  shows "\<not> store_consistent (apply_op st x)"
proof (cases x)
  case (Pair env op)
  show ?thesis
  proof (cases op)
    case (Create jid)
    with assms Pair show ?thesis by simp
  next
    case (MarkRunning jid)
    with assms Pair obtain job where g: "get_job st env jid = Some job"
      and bad: "result job \<noteq> None \<or> error job \<noteq> None"
      by (auto split: option.splits)
    have "\<not> consistent (set_error None (set_result None (set_status (now env) (Some RUNNING) job)))"
      using bad by (auto simp: consistent_def set_status_def set_result_def set_error_def)
    from update_job_inconsistent [OF g this] Pair MarkRunning show ?thesis
      by (simp add: mark_running_def)
  next
    case (MarkCompleted jid r)
    with assms Pair obtain job where g: "get_job st env jid = Some job"
      and bad: "error job \<noteq> None"
      by (auto split: option.splits)
    have "\<not> consistent
        (set_error None (set_result (Some r) (set_status (now env) (Some COMPLETED) job)))"
      using bad by (auto simp: consistent_def set_status_def set_result_def set_error_def)
    from update_job_inconsistent [OF g this] Pair MarkCompleted show ?thesis
      by (simp add: mark_completed_def)
  next
    case (MarkFailed jid e)
    with assms Pair obtain job where g: "get_job st env jid = Some job"
      and bad: "result job \<noteq> None"
      by (auto split: option.splits)
    have "\<not> consistent
        (set_error (Some e) (set_result None (set_status (now env) (Some FAILED) job)))"
      using bad by (auto simp: consistent_def set_status_def set_result_def set_error_def)
    from update_job_inconsistent [OF g this] Pair MarkFailed show ?thesis
      by (simp add: mark_failed_def)
  qed
qed

lemma run_ops_consistent:
  "store_consistent st \<Longrightarrow> allowed_ops st ops \<Longrightarrow> store_consistent (run_ops st ops)"
proof (induction ops arbitrary: st)
  case Nil
  then show ?case by simp
next
  case (Cons x xs)
  then show ?case by (simp add: apply_op_consistent)
qed

text \<open>
  Both invariants hold of the two empty stores, and \<open>well_keyed\<close> is kept by every
  operation, whatever the Redis calls do.
\<close>

lemma initial_stores:
  "well_keyed memory_only" "well_keyed with_redis"
  "store_consistent memory_only" "store_consistent with_redis"
  by (simp_all add: well_keyed_def store_consistent_def memory_only_def with_redis_def)

lemma update_job_well_keyed:
  "well_keyed st \<Longrightarrow> well_keyed (snd (update_job st env jid s r e))"
  by (auto simp: update_job_def save_job_well_keyed split: option.splits)

lemma apply_op_well_keyed: "well_keyed st \<Longrightarrow> well_keyed (apply_op st x)"
proof (cases x)
  case (Pair env op)
  assume "well_keyed st"
  then show ?thesis
    using Pair
    by (cases op)
      (simp_all add: create_job_def mark_running_def mark_completed_def mark_failed_def
        save_job_well_keyed update_job_well_keyed)
qed

lemma run_ops_well_keyed: "well_keyed st \<Longrightarrow> well_keyed (run_ops st ops)"
  by (induction ops arbitrary: st) (simp_all add: apply_op_well_keyed)

lemmas env_defs = at_time_def write_lost_def
lemmas store_defs = mark_running_def mark_completed_def mark_failed_def update_job_def
  set_status_def set_result_def set_error_def create_job_def get_job_def save_job_def new_job_def
  memory_only_def with_redis_def job_key_def

subsection \<open>Writes on a terminal record\<close>

text \<open>
  C1, as stated, fails. A job is created, completed with a payload at time 5, and then
  \<^verbatim>\<open>mark_failed\<close> arrives at time 9. The record was \<open>COMPLETED\<close> (second conjunct), yet
  the call is not a no-op: the record it returns and stores has status \<open>FAILED\<close>, a new
  \<open>completed_at\<close> and an error.
\<close>

theorem C1_terminal_write_overwrites:
  "mark_failed
     (snd (mark_completed (snd (create_job memory_only (at_time 1) ''j1'')) (at_time 5) ''j1''
             [(''ok'', ''1'')]))
     (at_time 9) ''j1'' ''late''
   = (Some \<lparr>job_id = ''j1'', status = FAILED, created_at = 1, completed_at = Some 9,
            result = Some [(''ok'', ''1'')], error = Some ''late''\<rparr>,
      \<lparr>memory_store =
         [(''j1'', \<lparr>job_id = ''j1'', status = FAILED, created_at = 1, completed_at = Some 9,
                   result = Some [(''ok'', ''1'')], error = Some ''late''\<rparr>)],
       redis_client = None\<rparr>)
   \<and> get_job (snd (mark_completed (snd (create_job memory_only (at_time 1) ''j1'')) (at_time 5)
                ''j1'' [(''ok'', ''1'')])) (at_time 9) ''j1''
     = Some \<lparr>job_id = ''j1'', status = COMPLETED, created_at = 1, completed_at = Some 5,
             result = Some [(''ok'', ''1'')], error = None\<rparr>"
  by (simp add: store_defs env_defs)

text \<open>
  C1, amended. \<^verbatim>\<open>update_job\<close> has no guard on the current status. When \<^verbatim>\<open>get_job\<close>
  finds no record for the id, each mark operation returns \<open>None\<close> and leaves the store as
  it is. When it finds a record, terminal or not, each mark operation returns that record
  with the status overwritten and saves it (\<^verbatim>\<open>_save_job\<close>), so that the local map holds it;
  \<^verbatim>\<open>mark_completed\<close> and \<^verbatim>\<open>mark_failed\<close> also overwrite \<open>completed_at\<close> with the current
  time and \<open>result\<close> (respectively \<open>error\<close>). The job id, \<open>created_at\<close> and the fields that
  are not passed keep their values.
\<close>

theorem C1_mark_overwrites:
  "(get_job st env jid = None \<longrightarrow>
      mark_running st env jid = (None, st)
      \<and> mark_completed st env jid r = (None, st)
      \<and> mark_failed st env jid e = (None, st))
   \<and> (\<forall>job. get_job st env jid = Some job \<longrightarrow>
      mark_running st env jid =
        (Some (job\<lparr>status := RUNNING\<rparr>), save_job st env (job\<lparr>status := RUNNING\<rparr>))
      \<and> mark_completed st env jid r =
        (Some (job\<lparr>status := COMPLETED, completed_at := Some (now env), result := Some r\<rparr>),
         save_job st env
           (job\<lparr>status := COMPLETED, completed_at := Some (now env), result := Some r\<rparr>))
      \<and> mark_failed st env jid e =
        (Some (job\<lparr>status := FAILED, completed_at := Some (now env), error := Some e\<rparr>),
         save_job st env
           (job\<lparr>status := FAILED, completed_at := Some (now env), error := Some e\<rparr>))
      \<and> map_of (memory_store (snd (mark_running st env jid))) (job_id job) =
          Some (job\<lparr>status := RUNNING\<rparr>)
      \<and> map_of (memory_store (snd (mark_completed st env jid r))) (job_id job) =
          Some (job\<lparr>status := COMPLETED, completed_at := Some (now env), result := Some r\<rparr>)
      \<and> map_of (memory_store (snd (mark_failed st env jid e))) (job_id job) =
          Some (job\<lparr>status := FAILED, completed_at := Some (now env), error := Some e\<rparr>))"
  by (simp add: mark_running_def mark_completed_def mark_failed_def update_job_def
      set_status_def set_result_def set_error_def save_job_def map_of_update_same)

text \<open>
  The amended C1 at a record that is already \<open>COMPLETED\<close>, and at an id without a record.
\<close>

theorem C1_mark_overwrites_witness:
  "get_job \<lparr>memory_store = [(''j1'', \<lparr>job_id = ''j1'', status = COMPLETED, created_at = 1,
              completed_at = Some 5, result = Some [], error = None\<rparr>)], redis_client = None\<rparr>
      (at_time 9) ''j1''
     = Some \<lparr>job_id = ''j1'', status = COMPLETED, created_at = 1,
              completed_at = Some 5, result = Some [], error = None\<rparr>
   \<and> mark_failed \<lparr>memory_store = [(''j1'', \<lparr>job_id = ''j1'', status = COMPLETED,
              created_at = 1, completed_at = Some 5, result = Some [], error = None\<rparr>)],
              redis_client = None\<rparr> (at_time 9) ''j1'' ''late''
     = (Some \<lparr>job_id = ''j1'', status = FAILED, created_at = 1, completed_at = Some 9,
              result = Some [], error = Some ''late''\<rparr>,
        \<lparr>memory_store = [(''j1'', \<lparr>job_id = ''j1'', status = FAILED, created_at = 1,
              completed_at = Some 9, result = Some [], error = Some ''late''\<rparr>)],
         redis_client = None\<rparr>)
   \<and> get_job memory_only (at_time 9) ''j1'' = None
   \<and> mark_failed memory_only (at_time 9) ''j1'' ''late'' = (None, memory_only)"
proof -
  let ?job = "\<lparr>job_id = ''j1'', status = COMPLETED, created_at = 1,
              completed_at = Some 5, result = Some [], error = None\<rparr>"
  let ?st = "\<lparr>memory_store = [(''j1'', ?job)], redis_client = None\<rparr>"
  have h: "get_job ?st (at_time 9) ''j1'' = Some ?job"
    by (simp add: get_job_def)
  have n: "get_job memory_only (at_time 9) ''j1'' = None"
    by (simp add: get_job_def memory_only_def)
  from C1_mark_overwrites [of ?st "at_time 9" "''j1''" _ "''late''"] h
  have 1: "mark_failed ?st (at_time 9) ''j1'' ''late''
      = (Some (?job\<lparr>status := FAILED, completed_at := Some (now (at_time 9)),
                    error := Some ''late''\<rparr>),
         save_job ?st (at_time 9)
           (?job\<lparr>status := FAILED, completed_at := Some (now (at_time 9)),
                  error := Some ''late''\<rparr>))"
    by blast
  from C1_mark_overwrites [of memory_only "at_time 9" "''j1''" _ "''late''"] n
  have 2: "mark_failed memory_only (at_time 9) ''j1'' ''late'' = (None, memory_only)"
    by blast
  from h n 1 2 show ?thesis
    by (simp add: at_time_def save_job_def)
qed

subsection \<open>The result/error invariant\<close>

text \<open>
  C2, as stated, fails. A running job is cancelled (\<^verbatim>\<open>mark_failed\<close>), and then its unit
  of work returns (\<^verbatim>\<open>mark_completed\<close>): the record that is reached has both \<open>result\<close> and
  \<open>error\<close> set, and an error although its status is \<open>COMPLETED\<close>.
\<close>

theorem C2_result_and_error_both_set:
  "get_job
     (run_ops memory_only
        [(at_time 1, Create ''j1''),
         (at_time 2, MarkRunning ''j1''),
         (at_time 3, MarkFailed ''j1'' ''Job cancelled by user''),
         (at_time 4, MarkCompleted ''j1'' [(''ok'', ''1'')])])
     (at_time 5) ''j1''
   = Some \<lparr>job_id = ''j1'', status = COMPLETED, created_at = 1, completed_at = Some 4,
           result = Some [(''ok'', ''1'')], error = Some ''Job cancelled by user''\<rparr>"
  by (simp add: store_defs env_defs)

text \<open>
  C2, amended. Starting from a store whose records satisfy the invariant (the empty stores
  do), every sequence of \<^verbatim>\<open>create_job\<close>, \<^verbatim>\<open>mark_running\<close>, \<^verbatim>\<open>mark_completed\<close> and
  \<^verbatim>\<open>mark_failed\<close> in which no \<^verbatim>\<open>mark_running\<close> reads a record that has a result or an
  error, no \<^verbatim>\<open>mark_completed\<close> reads a record that has an error, and no \<^verbatim>\<open>mark_failed\<close>
  reads a record that has a result (whatever the Redis calls do) reaches only records where
  \<open>result\<close> is set only with status \<open>COMPLETED\<close>, \<open>error\<close> only with status \<open>FAILED\<close>, and
  never both. The condition cannot be relaxed: an operation that breaks it always writes a
  record that violates the invariant.
\<close>

theorem C2_allowed_runs_consistent:
  "(store_consistent st \<and> allowed_ops st ops \<and> get_job (run_ops st ops) env jid = Some job \<longrightarrow>
      (result job \<noteq> None \<longrightarrow> status job = COMPLETED) \<and>
      (error job \<noteq> None \<longrightarrow> status job = FAILED) \<and>
      \<not> (result job \<noteq> None \<and> error job \<noteq> None))
   \<and> (\<not> allowed_op st x \<longrightarrow> \<not> store_consistent (apply_op st x))"
proof -
  have 1: "consistent job"
    if "store_consistent st \<and> allowed_ops st ops \<and> get_job (run_ops st ops) env jid = Some job"
    using that run_ops_consistent get_job_consistent by blast
  have 2: "\<not> store_consistent (apply_op st x)" if "\<not> allowed_op st x"
    using that by (rule apply_op_inconsistent)
  from 1 2 show ?thesis
    by (auto simp: consistent_def)
qed

text \<open>
  The amended C2 on a job that is cancelled and whose work then fails (two
  \<^verbatim>\<open>mark_failed\<close> in a row), and on the \<^verbatim>\<open>mark_completed\<close> that is not allowed after the
  cancel.
\<close>

theorem C2_allowed_runs_consistent_witness:
  "store_consistent memory_only
   \<and> allowed_ops memory_only
       [(at_time 1, Create ''j1''), (at_time 2, MarkRunning ''j1''),
        (at_time 3, MarkFailed ''j1'' ''Job cancelled by user''),
        (at_time 4, MarkFailed ''j1'' ''boom'')]
   \<and> get_job (run_ops memory_only
       [(at_time 1, Create ''j1''), (at_time 2, MarkRunning ''j1''),
        (at_time 3, MarkFailed ''j1'' ''Job cancelled by user''),
        (at_time 4, MarkFailed ''j1'' ''boom'')]) (at_time 5) ''j1''
      = Some \<lparr>job_id = ''j1'', status = FAILED, created_at = 1, completed_at = Some 4,
              result = None, error = Some ''boom''\<rparr>
   \<and> \<not> (result \<lparr>job_id = ''j1'', status = FAILED, created_at = 1, completed_at = Some 4,
              result = None, error = Some ''boom''\<rparr> \<noteq> None \<and>
      error \<lparr>job_id = ''j1'', status = FAILED, created_at = 1, completed_at = Some 4,
              result = None, error = Some ''boom''\<rparr> \<noteq> None)
   \<and> \<not> allowed_op
       (run_ops memory_only
          [(at_time 1, Create ''j1''), (at_time 2, MarkRunning ''j1''),
           (at_time 3, MarkFailed ''j1'' ''Job cancelled by user'')])
       (at_time 4, MarkCompleted ''j1'' [(''ok'', ''1'')])
   \<and> \<not> store_consistent
       (apply_op
          (run_ops memory_only
             [(at_time 1, Create ''j1''), (at_time 2, MarkRunning ''j1''),
              (at_time 3, MarkFailed ''j1'' ''Job cancelled by user'')])
          (at_time 4, MarkCompleted ''j1'' [(''ok'', ''1'')]))"
proof -
  let ?ops = "[(at_time 1, Create ''j1''), (at_time 2, MarkRunning ''j1''),
        (at_time 3, MarkFailed ''j1'' ''Job cancelled by user''),
        (at_time 4, MarkFailed ''j1'' ''boom'')]"
  let ?job = "\<lparr>job_id = ''j1'', status = FAILED, created_at = 1, completed_at = Some 4,
              result = None, error = Some ''boom''\<rparr>"
  let ?st3 = "run_ops memory_only
          [(at_time 1, Create ''j1''), (at_time 2, MarkRunning ''j1''),
           (at_time 3, MarkFailed ''j1'' ''Job cancelled by user'')]"
  let ?x = "(at_time 4, MarkCompleted ''j1'' [(''ok'', ''1'')])"
  have a: "store_consistent memory_only"
    by (simp add: store_consistent_def memory_only_def)
  have b: "allowed_ops memory_only ?ops"
    by (simp add: store_defs env_defs)
  have c: "get_job (run_ops memory_only ?ops) (at_time 5) ''j1'' = Some ?job"
    by (simp add: store_defs env_defs)
  have d: "\<not> allowed_op ?st3 ?x"
    by (simp add: store_defs env_defs)
  from C2_allowed_runs_consistent [of memory_only ?ops "at_time 5" "''j1''" ?job ?x] a b c
  have 1: "\<not> (result ?job \<noteq> None \<and> error ?job \<noteq> None)"
    by blast
  from C2_allowed_runs_consistent [of ?st3 "[]" "at_time 5" "''j1''" ?job ?x] d
  have 2: "\<not> store_consistent (apply_op ?st3 ?x)"
    by blast
  from a b c d 1 2 show ?thesis
    by blast
qed

section \<open>Properties of the dispatcher\<close>

lemma get_job_memory_present:
  assumes "map_of (memory_store st) jid = Some job0"
  shows "\<exists>job. get_job st env jid = Some job"
  using assms by (auto simp: get_job_def split: option.splits)

lemma job_id_set [simp]:
  "job_id (set_error e (set_result r (set_status t s job))) = job_id job"
  by (simp add: set_status_def set_result_def set_error_def split: option.splits)

lemma update_job_memory:
  assumes "well_keyed st" and "get_job st env jid = Some job"
  shows "map_of (memory_store (snd (update_job st env jid s r e))) jid =
         Some (set_error e (set_result r (set_status (now env) s job)))"
proof -
  have "job_id job = jid" using assms by (simp add: get_job_job_id[where st=st and env=env])
  then show ?thesis using assms(2)
    by (auto simp: update_job_def save_job_def update_conv')
qed

lemma update_job_memory_present:
  assumes "well_keyed st" and "map_of (memory_store st) jid = Some job0"
  shows "\<exists>job. map_of (memory_store (snd (update_job st env jid s r e))) jid = Some job"
proof -
  obtain job where "get_job st env jid = Some job"
    using get_job_memory_present [OF assms(2)] by blast
  then show ?thesis using update_job_memory [OF assms(1)] by simp
qed

lemma update_job_readback:
  assumes "well_keyed st" and "get_job st env jid = Some job"
    and "redis_client st = None \<or> set_ok env"
  shows "get_job (snd (update_job st env jid s r e)) env' jid =
         Some (set_error e (set_result r (set_status (now env) s job)))"
proof -
  have "job_id job = jid" using assms by (simp add: get_job_job_id[where st=st and env=env])
  then show ?thesis using assms(2,3)
    by (auto simp: update_job_def save_job_def get_job_def update_conv' split: option.splits)
qed

lemma update_job_redis_None:
  "redis_client (snd (update_job st env jid s r e)) = None \<longleftrightarrow> redis_client st = None"
  by (auto simp: update_job_def save_job_def split: option.splits)

subsection \<open>The background wrapper\<close>

text \<open>
  C3, as stated, fails. The unit of work of a job that was created and is running raises
  \<^verbatim>\<open>asyncio.CancelledError\<close>, which derives from \<^verbatim>\<open>BaseException\<close> and not from
  \<^verbatim>\<open>Exception\<close>: the \<^verbatim>\<open>except Exception\<close> clause does not match, the exception leaves the
  wrapper, and the record stays \<open>RUNNING\<close>.
\<close>

theorem C3_base_exception_leaves_running:
  "run_job (snd (create_job memory_only (at_time 1) ''j1'')) (at_time 2) (at_time 3) ''j1''
     (RaisedBaseException ''CancelledError'')
   = (Inl ''CancelledError'',
      \<lparr>memory_store =
         [(''j1'', \<lparr>job_id = ''j1'', status = RUNNING, created_at = 1, completed_at = None,
                   result = None, error = None\<rparr>)],
       redis_client = None\<rparr>)"
  by (simp add: run_job_def store_defs env_defs)

text \<open>
  C3, amended. For a job that is in the local map of a store whose entries sit under their
  own ids (every job made by \<^verbatim>\<open>create_job\<close> is), and whatever the Redis calls do: if the
  work returns, the wrapper ends normally and the local record is \<open>COMPLETED\<close> with the
  payload; if the work raises an exception of class \<^verbatim>\<open>Exception\<close>, the wrapper ends
  normally and the local record is \<open>FAILED\<close> with the text of the exception. When there
  is no Redis client or the last \<^verbatim>\<open>setex\<close> went through, \<^verbatim>\<open>get_job\<close> returns that record.
\<close>

theorem C3_wrapper_terminal:
  assumes "well_keyed st" and "map_of (memory_store st) jid = Some job0"
  shows "fst (run_job st env1 env2 jid (Returned r)) = Inr ()
    \<and> (\<exists>job. map_of (memory_store (snd (run_job st env1 env2 jid (Returned r)))) jid = Some job
          \<and> status job = COMPLETED \<and> result job = Some r \<and> completed_at job = Some (now env2)
          \<and> (redis_client st = None \<or> set_ok env2 \<longrightarrow>
               get_job (snd (run_job st env1 env2 jid (Returned r))) env3 jid = Some job))
    \<and> fst (run_job st env1 env2 jid (RaisedException msg)) = Inr ()
    \<and> (\<exists>job. map_of (memory_store (snd (run_job st env1 env2 jid (RaisedException msg)))) jid
            = Some job
          \<and> status job = FAILED \<and> error job = Some msg \<and> completed_at job = Some (now env2)
          \<and> (redis_client st = None \<or> set_ok env2 \<longrightarrow>
               get_job (snd (run_job st env1 env2 jid (RaisedException msg))) env3 jid
                 = Some job))"
proof -
  let ?st1 = "snd (mark_running st env1 jid)"
  let ?done = "\<lambda>job. set_error None (set_result (Some r) (set_status (now env2) (Some COMPLETED) job))"
  let ?fail = "\<lambda>job. set_error (Some msg) (set_result None (set_status (now env2) (Some FAILED) job))"
  have wk1: "well_keyed ?st1"
    using assms(1) by (simp add: mark_running_def update_job_well_keyed)
  have rn: "redis_client ?st1 = None \<longleftrightarrow> redis_client st = None"
    by (simp add: mark_running_def update_job_redis_None)
  obtain j1 where "map_of (memory_store ?st1) jid = Some j1"
    using update_job_memory_present [OF assms, of env1 "Some RUNNING" None None]
    unfolding mark_running_def by blast
  then obtain job where g: "get_job ?st1 env2 jid = Some job"
    using get_job_memory_present by blast
  have a: "map_of (memory_store (snd (mark_completed ?st1 env2 jid r))) jid = Some (?done job)"
    unfolding mark_completed_def by (rule update_job_memory [OF wk1 g])
  have b: "map_of (memory_store (snd (mark_failed ?st1 env2 jid msg))) jid = Some (?fail job)"
    unfolding mark_failed_def by (rule update_job_memory [OF wk1 g])
  have a': "get_job (snd (mark_completed ?st1 env2 jid r)) env3 jid = Some (?done job)"
    if "redis_client st = None \<or> set_ok env2"
    unfolding mark_completed_def using that rn by (intro update_job_readback [OF wk1 g]) simp
  have b': "get_job (snd (mark_failed ?st1 env2 jid msg)) env3 jid = Some (?fail job)"
    if "redis_client st = None \<or> set_ok env2"
    unfolding mark_failed_def using that rn by (intro update_job_readback [OF wk1 g]) simp
  have 1: "fst (run_job st env1 env2 jid (Returned r)) = Inr ()"
    and 3: "fst (run_job st env1 env2 jid (RaisedException msg)) = Inr ()"
    by (simp_all add: run_job_def)
  have 2: "\<exists>job. map_of (memory_store (snd (run_job st env1 env2 jid (Returned r)))) jid = Some job
          \<and> status job = COMPLETED \<and> result job = Some r \<and> completed_at job = Some (now env2)
          \<and> (redis_client st = None \<or> set_ok env2 \<longrightarrow>
               get_job (snd (run_job st env1 env2 jid (Returned r))) env3 jid = Some job)"
    using a a' by (intro exI [of _ "?done job"])
      (simp add: run_job_def set_status_def set_result_def set_error_def)
  have 4: "\<exists>job. map_of (memory_store (snd (run_job st env1 env2 jid (RaisedException msg)))) jid
            = Some job
          \<and> status job = FAILED \<and> error job = Some msg \<and> completed_at job = Some (now env2)
          \<and> (redis_client st = None \<or> set_ok env2 \<longrightarrow>
               get_job (snd (run_job st env1 env2 jid (RaisedException msg))) env3 jid
                 = Some job)"
    using b b' by (intro exI [of _ "?fail job"])
      (simp add: run_job_def set_status_def set_result_def set_error_def)
  from 1 2 3 4 show ?thesis by blast
qed

text \<open>The amended C3 on a job whose work raises while the Redis write is lost.\<close>

theorem C3_wrapper_terminal_witness:
  "well_keyed (snd (create_job with_redis (at_time 1) ''j1''))
   \<and> map_of (memory_store (snd (create_job with_redis (at_time 1) ''j1''))) ''j1''
       = Some (new_job 1 ''j1'')
   \<and> (\<exists>job. map_of (memory_store (snd (run_job (snd (create_job with_redis (at_time 1) ''j1''))
                 (at_time 2) (write_lost 3) ''j1'' (RaisedException ''boom'')))) ''j1'' = Some job
          \<and> status job = FAILED \<and> error job = Some ''boom'' \<and> completed_at job = Some 3)"
proof -
  let ?st = "snd (create_job with_redis (at_time 1) ''j1'')"
  have a: "well_keyed ?st"
    by (simp add: well_keyed_def store_defs env_defs)
  have b: "map_of (memory_store ?st) ''j1'' = Some (new_job 1 ''j1'')"
    by (simp add: store_defs env_defs)
  from C3_wrapper_terminal [OF a b, of "at_time 2" "write_lost 3" _ _ "''boom''"]
  have "\<exists>job. map_of (memory_store (snd (run_job ?st (at_time 2) (write_lost 3) ''j1''
                 (RaisedException ''boom'')))) ''j1'' = Some job
          \<and> status job = FAILED \<and> error job = Some ''boom''
          \<and> completed_at job = Some (now (write_lost 3))"
    by blast
  with a b show ?thesis by (simp add: write_lost_def)
qed


subsection \<open>Cancellation\<close>

text \<open>
  C4, as stated, fails in its last part. A running job is cancelled while the \<^verbatim>\<open>setex\<close> of
  \<^verbatim>\<open>_save_job\<close> raises (the source logs it and goes on): the local record is \<open>FAILED\<close>,
  the Redis copy is still \<open>RUNNING\<close>. The second cancel reads the Redis copy first, finds
  it running, and succeeds again instead of answering 400; the record changes
  (\<open>completed_at\<close> goes from 3 to 4).
\<close>

theorem C4_second_cancel_not_conflict:
  "cancel_job
     (snd (mark_running (snd (create_job with_redis (at_time 1) ''j1'')) (at_time 2) ''j1''))
     (at_time 3) (write_lost 3) ''j1''
   = (Inr ''Job j1 cancelled'',
      \<lparr>memory_store =
         [(''j1'', \<lparr>job_id = ''j1'', status = FAILED, created_at = 1, completed_at = Some 3,
                   result = None, error = Some ''Job cancelled by user''\<rparr>)],
       redis_client = Some
         [(''ai-agent:job:j1'', \<lparr>job_id = ''j1'', status = RUNNING, created_at = 1,
                   completed_at = None, result = None, error = None\<rparr>)]\<rparr>)
   \<and> cancel_job
       (snd (cancel_job
          (snd (mark_running (snd (create_job with_redis (at_time 1) ''j1'')) (at_time 2) ''j1''))
          (at_time 3) (write_lost 3) ''j1''))
       (at_time 4) (at_time 4) ''j1''
   = (Inr ''Job j1 cancelled'',
      \<lparr>memory_store =
         [(''j1'', \<lparr>job_id = ''j1'', status = FAILED, created_at = 1, completed_at = Some 4,
                   result = None, error = Some ''Job cancelled by user''\<rparr>)],
       redis_client = Some
         [(''ai-agent:job:j1'', \<lparr>job_id = ''j1'', status = FAILED, created_at = 1,
                   completed_at = Some 4, result = None,
                   error = Some ''Job cancelled by user''\<rparr>)]\<rparr>)"
  by (simp add: cancel_job_def store_defs env_defs)

text \<open>
  C4, amended. Cancelling an id for which \<^verbatim>\<open>get_job\<close> finds nothing gives 404 and the
  store is unchanged; cancelling a record that is \<open>COMPLETED\<close> or \<open>FAILED\<close> gives 400 and
  the store is unchanged; cancelling a \<open>PENDING\<close> or \<open>RUNNING\<close> record returns the message
  that the job is cancelled, whatever \<^verbatim>\<open>mark_failed\<close> does. \<^verbatim>\<open>mark_failed\<close> reads the record
  again. When that read finds nothing (the record is in Redis only and the read raises),
  nothing is marked and the store is unchanged; it always finds a record when the id is in
  the local map. When that read finds a record, in a store whose entries sit under their
  own ids, the local record is that record made \<open>FAILED\<close> with the error
  \<^verbatim>\<open>Job cancelled by user\<close>, which contains \<^verbatim>\<open>cancelled\<close>; and if moreover there is no Redis
  client or the \<^verbatim>\<open>setex\<close> of that cancel went through, a second cancel gives 400 and
  leaves the store unchanged.
\<close>

theorem C4_cancel_semantics:
  "(get_job st env1 jid = None \<longrightarrow>
            cancel_job st env1 env2 jid = (Inl HTTP_404_NOT_FOUND, st))
    \<and> (\<forall>job. get_job st env1 jid = Some job \<and> (status job = COMPLETED \<or> status job = FAILED) \<longrightarrow>
            cancel_job st env1 env2 jid = (Inl HTTP_400_BAD_REQUEST, st))
    \<and> (\<forall>job. get_job st env1 jid = Some job \<and> (status job = PENDING \<or> status job = RUNNING) \<longrightarrow>
            fst (cancel_job st env1 env2 jid) = Inr (''Job '' @ jid @ '' cancelled'')
          \<and> contains ''cancelled'' ''Job cancelled by user''
          \<and> (get_job st env2 jid = None \<longrightarrow> snd (cancel_job st env1 env2 jid) = st)
          \<and> (map_of (memory_store st) jid \<noteq> None \<longrightarrow> get_job st env2 jid \<noteq> None)
          \<and> (\<forall>job'. well_keyed st \<and> get_job st env2 jid = Some job' \<longrightarrow>
                map_of (memory_store (snd (cancel_job st env1 env2 jid))) jid =
                  Some (job'\<lparr>status := FAILED, completed_at := Some (now env2),
                             error := Some ''Job cancelled by user''\<rparr>)
              \<and> (redis_client st = None \<or> set_ok env2 \<longrightarrow>
                   cancel_job (snd (cancel_job st env1 env2 jid)) env3 env4 jid =
                     (Inl HTTP_400_BAD_REQUEST, snd (cancel_job st env1 env2 jid)))))"
proof -
  have 1: "cancel_job st env1 env2 jid = (Inl HTTP_404_NOT_FOUND, st)"
    if "get_job st env1 jid = None"
    using that by (simp add: cancel_job_def)
  have 2: "cancel_job st env1 env2 jid = (Inl HTTP_400_BAD_REQUEST, st)"
    if "get_job st env1 jid = Some job \<and> (status job = COMPLETED \<or> status job = FAILED)" for job
    using that by (auto simp: cancel_job_def)
  have c: "cancel_job st env1 env2 jid =
      (Inr (''Job '' @ jid @ '' cancelled''),
       snd (update_job st env2 jid (Some FAILED) None (Some ''Job cancelled by user'')))"
    if "get_job st env1 jid = Some job \<and> (status job = PENDING \<or> status job = RUNNING)" for job
    using that by (auto simp: cancel_job_def mark_failed_def)
  have 3: "snd (cancel_job st env1 env2 jid) = st"
    if "get_job st env1 jid = Some job \<and> (status job = PENDING \<or> status job = RUNNING)"
      and "get_job st env2 jid = None" for job
    using c [OF that(1)] that(2) by (simp add: update_job_def)
  have 4: "get_job st env2 jid \<noteq> None" if "map_of (memory_store st) jid \<noteq> None"
    using that get_job_memory_present [of st jid _ env2] by auto
  have 5: "map_of (memory_store (snd (cancel_job st env1 env2 jid))) jid =
                  Some (job'\<lparr>status := FAILED, completed_at := Some (now env2),
                             error := Some ''Job cancelled by user''\<rparr>)"
    if "get_job st env1 jid = Some job \<and> (status job = PENDING \<or> status job = RUNNING)"
      and "well_keyed st \<and> get_job st env2 jid = Some job'" for job job'
    using c [OF that(1)] that(2) update_job_memory [of st env2 jid job']
    by (simp add: set_status_def set_result_def set_error_def)
  have 6: "cancel_job (snd (cancel_job st env1 env2 jid)) env3 env4 jid =
                     (Inl HTTP_400_BAD_REQUEST, snd (cancel_job st env1 env2 jid))"
    if "get_job st env1 jid = Some job \<and> (status job = PENDING \<or> status job = RUNNING)"
      and "well_keyed st \<and> get_job st env2 jid = Some job'"
      and "redis_client st = None \<or> set_ok env2" for job job'
  proof -
    have "get_job (snd (cancel_job st env1 env2 jid)) env3 jid =
        Some (job'\<lparr>status := FAILED, completed_at := Some (now env2),
                   error := Some ''Job cancelled by user''\<rparr>)"
      using c [OF that(1)] that(2,3) update_job_readback [of st env2 jid job']
      by (simp add: set_status_def set_result_def set_error_def)
    then show ?thesis
      by (simp add: cancel_job_def)
  qed
  have 7: "contains ''cancelled'' ''Job cancelled by user''"
    by simp
  have 8: "fst (cancel_job st env1 env2 jid) = Inr (''Job '' @ jid @ '' cancelled'')"
    if "get_job st env1 jid = Some job \<and> (status job = PENDING \<or> status job = RUNNING)" for job
    using c [OF that] by simp
  show ?thesis
    using 1 2 3 4 5 6 7 8 by blast
qed

text \<open>
  The amended C4 on a freshly created job, on an unknown id, and on a running job that is
  in Redis only while the read of \<^verbatim>\<open>mark_failed\<close> raises.
\<close>

theorem C4_cancel_semantics_witness:
  "well_keyed (snd (create_job with_redis (at_time 1) ''j1''))
   \<and> get_job (snd (create_job with_redis (at_time 1) ''j1'')) (at_time 2) ''j1''
       = Some (new_job 1 ''j1'')
   \<and> get_job (snd (create_job with_redis (at_time 1) ''j1'')) (at_time 2) ''zz'' = None
   \<and> cancel_job (snd (create_job with_redis (at_time 1) ''j1'')) (at_time 2) (at_time 2) ''zz''
       = (Inl HTTP_404_NOT_FOUND, snd (create_job with_redis (at_time 1) ''j1''))
   \<and> fst (cancel_job (snd (create_job with_redis (at_time 1) ''j1'')) (at_time 2) (at_time 2)
       ''j1'') = Inr ''Job j1 cancelled''
   \<and> fst (cancel_job (snd (cancel_job (snd (create_job with_redis (at_time 1) ''j1''))
       (at_time 2) (at_time 2) ''j1'')) (at_time 3) (at_time 3) ''j1'') = Inl HTTP_400_BAD_REQUEST
   \<and> get_job redis_only_store \<lparr>get_ok = False, set_ok = True, now = 3\<rparr> ''j1'' = None
   \<and> cancel_job redis_only_store (at_time 2) \<lparr>get_ok = False, set_ok = True, now = 3\<rparr> ''j1''
       = (Inr ''Job j1 cancelled'', redis_only_store)"
proof -
  let ?st = "snd (create_job with_redis (at_time 1) ''j1'')"
  let ?down = "\<lparr>get_ok = False, set_ok = True, now = 3\<rparr>"
  have a: "well_keyed ?st"
    by (simp add: well_keyed_def store_defs env_defs)
  have b: "get_job ?st (at_time 2) ''j1'' = Some (new_job 1 ''j1'')"
    by (simp add: store_defs env_defs)
  have b': "status (new_job 1 ''j1'') = PENDING" by (simp add: new_job_def)
  have b'': "set_ok (at_time 2)" by (simp add: at_time_def)
  have n: "get_job ?st (at_time 2) ''zz'' = None"
    by (simp add: store_defs env_defs)
  have r1: "get_job redis_only_store (at_time 2) ''j1''
      = Some \<lparr>job_id = ''j1'', status = RUNNING, created_at = 1, completed_at = None,
              result = None, error = None\<rparr>"
    by (simp add: redis_only_store_def store_defs env_defs)
  have r2: "get_job redis_only_store ?down ''j1'' = None"
    by (simp add: redis_only_store_def store_defs)
  note t = C4_cancel_semantics [of ?st "at_time 2" _ "at_time 2" "at_time 3" "at_time 3"]
  from t [of "''zz''"] n
  have 1: "cancel_job ?st (at_time 2) (at_time 2) ''zz'' = (Inl HTTP_404_NOT_FOUND, ?st)"
    by blast
  from t [of "''j1''"] a b b' b''
  have 2: "fst (cancel_job ?st (at_time 2) (at_time 2) ''j1'') = Inr (''Job '' @ ''j1'' @ '' cancelled'')"
    and 3: "cancel_job (snd (cancel_job ?st (at_time 2) (at_time 2) ''j1'')) (at_time 3) (at_time 3) ''j1''
       = (Inl HTTP_400_BAD_REQUEST, snd (cancel_job ?st (at_time 2) (at_time 2) ''j1''))"
    by blast+
  from C4_cancel_semantics [of redis_only_store "at_time 2" "''j1''" ?down] r1 r2
  have 4: "fst (cancel_job redis_only_store (at_time 2) ?down ''j1'')
        = Inr (''Job '' @ ''j1'' @ '' cancelled'')"
    and 5: "snd (cancel_job redis_only_store (at_time 2) ?down ''j1'') = redis_only_store"
    by auto
  from 4 5 have 6: "cancel_job redis_only_store (at_time 2) ?down ''j1''
       = (Inr ''Job j1 cancelled'', redis_only_store)"
    by (simp add: prod_eq_iff)
  from a b n 1 2 3 r2 6 show ?thesis by simp
qed

section \<open>Properties of the queue status query\<close>

text \<open>
  C5, as stated, fails in its last part. Celery's \<^verbatim>\<open>RETRY\<close> is not a key of
  \<^verbatim>\<open>status_map\<close>; the default of \<^verbatim>\<open>status_map.get\<close> is the state in lower case, so the
  status returned is \<^verbatim>\<open>retry\<close>, not \<^verbatim>\<open>failed\<close>, and there is no error.
\<close>

theorem C5_unknown_state_passed_through:
  "get_task_status ''t1''
     \<lparr>ar_status = ''RETRY'', ar_result = ''ConnectionError()'', ar_ready = False,
      ar_failed = False\<rparr>
   = \<lparr>ts_task_id = ''t1'', ts_status = ''retry'', ts_result = None, ts_error = None\<rparr>"
  by (simp add: get_task_status_def status_map_def lower_def lower_char_def)

text \<open>
  C5, amended. The five states of the table map as the claim says: \<^verbatim>\<open>PENDING\<close> to
  \<^verbatim>\<open>pending\<close>, \<^verbatim>\<open>STARTED\<close> to \<^verbatim>\<open>running\<close>, \<^verbatim>\<open>SUCCESS\<close> to \<^verbatim>\<open>completed\<close>, \<^verbatim>\<open>FAILURE\<close>
  and \<^verbatim>\<open>REVOKED\<close> to \<^verbatim>\<open>failed\<close>. Every other state is passed through in lower case,
  and the error is set only when \<^verbatim>\<open>failed()\<close> holds: no \<^verbatim>\<open>unknown state\<close> error is made.
\<close>

theorem C5_status_mapping:
  "ts_status (get_task_status tid (res\<lparr>ar_status := ''PENDING''\<rparr>)) = ''pending''
   \<and> ts_status (get_task_status tid (res\<lparr>ar_status := ''STARTED''\<rparr>)) = ''running''
   \<and> ts_status (get_task_status tid (res\<lparr>ar_status := ''SUCCESS''\<rparr>)) = ''completed''
   \<and> ts_status (get_task_status tid (res\<lparr>ar_status := ''FAILURE''\<rparr>)) = ''failed''
   \<and> ts_status (get_task_status tid (res\<lparr>ar_status := ''REVOKED''\<rparr>)) = ''failed''
   \<and> (ar_status res \<notin> {''PENDING'', ''STARTED'', ''SUCCESS'', ''FAILURE'', ''REVOKED''} \<longrightarrow>
        ts_status (get_task_status tid res) = lower (ar_status res)
        \<and> ts_error (get_task_status tid res) = (if ar_failed res then Some (ar_result res) else None))"
  by (simp add: get_task_status_def status_map_def)

text \<open>The amended C5 on Celery's \<^verbatim>\<open>RECEIVED\<close>.\<close>

theorem C5_status_mapping_witness:
  "''RECEIVED'' \<notin> {''PENDING'', ''STARTED'', ''SUCCESS'', ''FAILURE'', ''REVOKED''}
   \<and> ts_status (get_task_status ''t1'' \<lparr>ar_status = ''RECEIVED'', ar_result = '''',
        ar_ready = False, ar_failed = False\<rparr>) = ''received''
   \<and> ts_error (get_task_status ''t1'' \<lparr>ar_status = ''RECEIVED'', ar_result = '''',
        ar_ready = False, ar_failed = False\<rparr>) = None"
  using C5_status_mapping [of "''t1''" "\<lparr>ar_status = ''RECEIVED'', ar_result = '''',
        ar_ready = False, ar_failed = False\<rparr>"]
  by (simp add: lower_def lower_char_def)

section \<open>Properties of the process runner and the synthesizer\<close>

text \<open>
  C6. The code does not do what the claim says on every timeout. When \<^verbatim>\<open>wait_for\<close> raises
  \<^verbatim>\<open>TimeoutError\<close> and the kill goes through, the result has \<open>success = False\<close>,
  \<open>exit_code = -1\<close> and the error \<^verbatim>\<open>Test timed out\<close>, which contains \<^verbatim>\<open>timed out\<close>. When the
  process finishes between the expiry of the timeout and the kill, \<^verbatim>\<open>process.kill()\<close> raises
  \<^verbatim>\<open>ProcessLookupError\<close> out of the timeout handler, and the outer \<^verbatim>\<open>except Exception\<close>
  answers with the text of that exception, which is empty: the error does not contain
  \<^verbatim>\<open>timed out\<close>.
\<close>

theorem C6_timeout_and_kill:
  "run_process Spawned TimeoutError Killed
     = \<lparr>success = False, stdout = [], stderr = [], exit_code = - 1,
        run_error = Some ''Test timed out''\<rparr>
   \<and> contains ''timed out'' ''Test timed out''
   \<and> run_process Spawned TimeoutError (KillRaised '''')
     = \<lparr>success = False, stdout = [], stderr = [], exit_code = - 1, run_error = Some ''''\<rparr>
   \<and> \<not> contains ''timed out'' ''''"
  by (simp add: run_process_def)

lemmas synth_defs = steps_to_cypress_def steps_to_playwright_def cypress_statement_def
  playwright_statement_def dict_get_def join_lines_def sq_def

text \<open>
  C7, as stated, fails. Neither \<^verbatim>\<open>_steps_to_cypress\<close> nor \<^verbatim>\<open>_steps_to_playwright\<close> has a
  branch for \<^verbatim>\<open>select\<close>: for a single select step both outputs are the bare boilerplate,
  with no statement in it.
\<close>

theorem C7_select_emits_nothing:
  "steps_to_cypress
     [[(''type'', PyStr ''select''), (''selector'', PyStr ''#country''), (''value'', PyStr ''FR'')]]
     ''https://base''
   = join_lines
       [''describe('Test', () => {'',
        ''  it('runs the test steps', () => {'',
        ''  });'',
        ''});'']
   \<and> steps_to_playwright
     [[(''type'', PyStr ''select''), (''selector'', PyStr ''#country''), (''value'', PyStr ''FR'')]]
     ''https://base''
   = join_lines
       [''const { test, expect } = require('@playwright/test');'',
        '''',
        ''test('runs the test steps', async ({ page }) => {'',
        ''});'']"
  by (simp add: synth_defs)

text \<open>
  C7, amended. For every step whose type is \<^verbatim>\<open>select\<close> the synthesizer emits no
  statement, in both flavors: the output is the one of the same steps without it.
\<close>

theorem C7_select_skipped:
  assumes "dict_get step ''type'' (PyStr '''') = PyStr ''select''"
  shows "cypress_statement base_url step = []
    \<and> playwright_statement base_url step = []
    \<and> steps_to_cypress (before @ [step] @ after) base_url
        = steps_to_cypress (before @ after) base_url
    \<and> steps_to_playwright (before @ [step] @ after) base_url
        = steps_to_playwright (before @ after) base_url"
  using assms
  by (simp add: steps_to_cypress_def steps_to_playwright_def cypress_statement_def
      playwright_statement_def)

text \<open>The amended C7 on a click followed by a select.\<close>

theorem C7_select_skipped_witness:
  "dict_get [(''type'', PyStr ''select''), (''selector'', PyStr ''#country''),
             (''value'', PyStr ''FR'')] ''type'' (PyStr '''') = PyStr ''select''
   \<and> steps_to_cypress
        ([[(''type'', PyStr ''click''), (''selector'', PyStr ''#btn'')]]
         @ [[(''type'', PyStr ''select''), (''selector'', PyStr ''#country''),
             (''value'', PyStr ''FR'')]] @ [])
        ''https://base''
     = join_lines
         [''describe('Test', () => {'',
          ''  it('runs the test steps', () => {'',
          ''    cy.get('#btn').click();'',
          ''  });'',
          ''});'']"
proof -
  let ?sel = "[(''type'', PyStr ''select''), (''selector'', PyStr ''#country''),
             (''value'', PyStr ''FR'')]"
  have a: "dict_get ?sel ''type'' (PyStr '''') = PyStr ''select''"
    by (simp add: dict_get_def)
  from C7_select_skipped [OF a, of "''https://base''"
      "[[(''type'', PyStr ''click''), (''selector'', PyStr ''#btn'')]]" "[]"] a
  show ?thesis
    by (simp add: synth_defs)
qed

lemma map_cong_through:
  assumes "\<And>x y. f x = f y \<Longrightarrow> g x = g y" and "map f xs = map f ys"
  shows "map g xs = map g ys"
  using assms(2)
proof (induction xs arbitrary: ys)
  case Nil
  then show ?case by simp
next
  case (Cons x xs)
  then obtain y ys' where ys: "ys = y # ys'" and "f x = f y" and "map f xs = map f ys'"
    by (cases ys) auto
  with Cons.IH [of ys'] assms(1) [of x y] show ?case by simp
qed

lemma statement_reads_mapping:
  assumes "map_of s = map_of s'"
  shows "cypress_statement b s = cypress_statement b s'"
    and "playwright_statement b s = playwright_statement b s'"
proof -
  have g: "dict_get s = dict_get s'"
    by (simp add: dict_get_def fun_eq_iff assms)
  show "cypress_statement b s = cypress_statement b s'"
    unfolding cypress_statement_def g by (rule refl)
  show "playwright_statement b s = playwright_statement b s'"
    unfolding playwright_statement_def g by (rule refl)
qed

lemma equal_dicts_equal_output:
  assumes "map map_of steps = map map_of steps'"
  shows "steps_to_cypress steps b = steps_to_cypress steps' b"
    and "steps_to_playwright steps b = steps_to_playwright steps' b"
proof -
  have "map (cypress_statement b) steps = map (cypress_statement b) steps'"
    by (rule map_cong_through [OF statement_reads_mapping(1) assms])
  then show "steps_to_cypress steps b = steps_to_cypress steps' b"
    by (simp add: steps_to_cypress_def)
  have "map (playwright_statement b) steps = map (playwright_statement b) steps'"
    by (rule map_cong_through [OF statement_reads_mapping(2) assms])
  then show "steps_to_playwright steps b = steps_to_playwright steps' b"
    by (simp add: steps_to_playwright_def)
qed

lemma four_steps_cypress:
  "steps_to_cypress
     [[(''type'', PyStr ''navigate''), (''url'', PyStr u)],
      [(''type'', PyStr ''click''), (''selector'', PyStr s1)],
      [(''type'', PyStr ''type''), (''selector'', PyStr s2), (''value'', PyStr v)],
      [(''type'', PyStr ''wait''), (''duration'', PyInt d)]] b
   = join_lines
       [''describe('Test', () => {'',
        ''  it('runs the test steps', () => {'',
        ''    cy.visit('' @ sq @ u @ sq @ '');'',
        ''    cy.get('' @ sq @ s1 @ sq @ '').click();'',
        ''    cy.get('' @ sq @ s2 @ sq @ '').type('' @ sq @ v @ sq @ '');'',
        ''    cy.wait('' @ py_str (PyInt d) @ '');'',
        ''  });'',
        ''});'']"
  by (simp add: steps_to_cypress_def cypress_statement_def dict_get_def sq_def)

lemma four_steps_playwright:
  "steps_to_playwright
     [[(''type'', PyStr ''navigate''), (''url'', PyStr u)],
      [(''type'', PyStr ''click''), (''selector'', PyStr s1)],
      [(''type'', PyStr ''type''), (''selector'', PyStr s2), (''value'', PyStr v)],
      [(''type'', PyStr ''wait''), (''duration'', PyInt d)]] b
   = join_lines
       [''const { test, expect } = require('@playwright/test');'',
        '''',
        ''test('runs the test steps', async ({ page }) => {'',
        ''  await page.goto('' @ sq @ u @ sq @ '');'',
        ''  await page.click('' @ sq @ s1 @ sq @ '');'',
        ''  await page.fill('' @ sq @ s2 @ sq @ '', '' @ sq @ v @ sq @ '');'',
        ''  await page.waitForTimeout('' @ py_str (PyInt d) @ '');'',
        ''});'']"
  by (simp add: steps_to_playwright_def playwright_statement_def dict_get_def sq_def)

lemma example_cypress:
  "steps_to_cypress example_steps ''https://base''
   = join_lines
       [''describe('Test', () => {'',
        ''  it('runs the test steps', () => {'',
        ''    cy.visit('https://x');'',
        ''    cy.get('#btn').click();'',
        ''    cy.get('#inp').type('hello');'',
        ''    cy.wait(500);'',
        ''  });'',
        ''});'']"
  by (simp add: synth_defs example_steps_def digits.simps)

lemma example_playwright:
  "steps_to_playwright example_steps ''https://base''
   = join_lines
       [''const { test, expect } = require('@playwright/test');'',
        '''',
        ''test('runs the test steps', async ({ page }) => {'',
        ''  await page.goto('https://x');'',
        ''  await page.click('#btn');'',
        ''  await page.fill('#inp', 'hello');'',
        ''  await page.waitForTimeout(500);'',
        ''});'']"
  by (simp add: synth_defs example_steps_def digits.simps)

lemma example_cypress_counts:
  "occurrences ''cy.visit('' (steps_to_cypress example_steps ''https://base'') = 1"
  "occurrences ''cy.visit('https://x');'' (steps_to_cypress example_steps ''https://base'') = 1"
  "occurrences ''https://base'' (steps_to_cypress example_steps ''https://base'') = 0"
  "occurrences ''.click()'' (steps_to_cypress example_steps ''https://base'') = 1"
  "occurrences ''cy.get('#btn').click();'' (steps_to_cypress example_steps ''https://base'') = 1"
  "occurrences ''.type('' (steps_to_cypress example_steps ''https://base'') = 1"
  "occurrences ''cy.get('#inp').type('hello');''
     (steps_to_cypress example_steps ''https://base'') = 1"
  "occurrences ''cy.wait('' (steps_to_cypress example_steps ''https://base'') = 1"
  "occurrences ''cy.wait(500);'' (steps_to_cypress example_steps ''https://base'') = 1"
  unfolding example_cypress by (simp_all add: join_lines_def)

lemma example_playwright_counts:
  "occurrences ''page.goto('' (steps_to_playwright example_steps ''https://base'') = 1"
  "occurrences ''await page.goto('https://x');''
     (steps_to_playwright example_steps ''https://base'') = 1"
  "occurrences ''https://base'' (steps_to_playwright example_steps ''https://base'') = 0"
  "occurrences ''page.click('' (steps_to_playwright example_steps ''https://base'') = 1"
  "occurrences ''await page.click('#btn');''
     (steps_to_playwright example_steps ''https://base'') = 1"
  "occurrences ''page.fill('' (steps_to_playwright example_steps ''https://base'') = 1"
  "occurrences ''await page.fill('#inp', 'hello');''
     (steps_to_playwright example_steps ''https://base'') = 1"
  "occurrences ''page.waitForTimeout('' (steps_to_playwright example_steps ''https://base'') = 1"
  "occurrences ''await page.waitForTimeout(500);''
     (steps_to_playwright example_steps ''https://base'') = 1"
  unfolding example_playwright by (simp_all add: join_lines_def)

text \<open>
  C8. The synthesizer reads a step dict only through \<^verbatim>\<open>step.get\<close>, and nothing else but
  the base URL: whenever two lists of steps are equal as Python compares them (the dicts
  hold the same values under the same keys, in whatever order the keys were inserted), the
  two outputs are the same text, in both flavors. For every URL, selector, value and
  duration, the four steps navigate, click, type, wait give the boilerplate around exactly
  the four statements for them, in that order. On the input of the claim the Cypress
  output and the Playwright output are the texts below; each holds exactly one navigation,
  to \<^verbatim>\<open>https://x\<close>, and the base URL does not occur in it; exactly one click, on
  \<^verbatim>\<open>#btn\<close>; exactly one type (fill), of \<^verbatim>\<open>hello\<close> into \<^verbatim>\<open>#inp\<close>; exactly one wait, of 500.
\<close>

theorem C8_deterministic_output:
  "(map map_of steps = map map_of steps' \<longrightarrow>
      steps_to_cypress steps b = steps_to_cypress steps' b
      \<and> steps_to_playwright steps b = steps_to_playwright steps' b)
   \<and> steps_to_cypress
     [[(''type'', PyStr ''navigate''), (''url'', PyStr u)],
      [(''type'', PyStr ''click''), (''selector'', PyStr s1)],
      [(''type'', PyStr ''type''), (''selector'', PyStr s2), (''value'', PyStr v)],
      [(''type'', PyStr ''wait''), (''duration'', PyInt d)]] b
   = join_lines
       [''describe('Test', () => {'',
        ''  it('runs the test steps', () => {'',
        ''    cy.visit('' @ sq @ u @ sq @ '');'',
        ''    cy.get('' @ sq @ s1 @ sq @ '').click();'',
        ''    cy.get('' @ sq @ s2 @ sq @ '').type('' @ sq @ v @ sq @ '');'',
        ''    cy.wait('' @ py_str (PyInt d) @ '');'',
        ''  });'',
        ''});'']
   \<and> steps_to_playwright
     [[(''type'', PyStr ''navigate''), (''url'', PyStr u)],
      [(''type'', PyStr ''click''), (''selector'', PyStr s1)],
      [(''type'', PyStr ''type''), (''selector'', PyStr s2), (''value'', PyStr v)],
      [(''type'', PyStr ''wait''), (''duration'', PyInt d)]] b
   = join_lines
       [''const { test, expect } = require('@playwright/test');'',
        '''',
        ''test('runs the test steps', async ({ page }) => {'',
        ''  await page.goto('' @ sq @ u @ sq @ '');'',
        ''  await page.click('' @ sq @ s1 @ sq @ '');'',
        ''  await page.fill('' @ sq @ s2 @ sq @ '', '' @ sq @ v @ sq @ '');'',
        ''  await page.waitForTimeout('' @ py_str (PyInt d) @ '');'',
        ''});'']
   \<and> steps_to_cypress example_steps ''https://base''
   = join_lines
       [''describe('Test', () => {'',
        ''  it('runs the test steps', () => {'',
        ''    cy.visit('https://x');'',
        ''    cy.get('#btn').click();'',
        ''    cy.get('#inp').type('hello');'',
        ''    cy.wait(500);'',
        ''  });'',
        ''});'']
   \<and> occurrences ''cy.visit('' (steps_to_cypress example_steps ''https://base'') = 1
   \<and> occurrences ''cy.visit('https://x');'' (steps_to_cypress example_steps ''https://base'') = 1
   \<and> occurrences ''https://base'' (steps_to_cypress example_steps ''https://base'') = 0
   \<and> occurrences ''.click()'' (steps_to_cypress example_steps ''https://base'') = 1
   \<and> occurrences ''cy.get('#btn').click();'' (steps_to_cypress example_steps ''https://base'') = 1
   \<and> occurrences ''.type('' (steps_to_cypress example_steps ''https://base'') = 1
   \<and> occurrences ''cy.get('#inp').type('hello');''
         (steps_to_cypress example_steps ''https://base'') = 1
   \<and> occurrences ''cy.wait('' (steps_to_cypress example_steps ''https://base'') = 1
   \<and> occurrences ''cy.wait(500);'' (steps_to_cypress example_steps ''https://base'') = 1
   \<and> steps_to_playwright example_steps ''https://base''
   = join_lines
       [''const { test, expect } = require('@playwright/test');'',
        '''',
        ''test('runs the test steps', async ({ page }) => {'',
        ''  await page.goto('https://x');'',
        ''  await page.click('#btn');'',
        ''  await page.fill('#inp', 'hello');'',
        ''  await page.waitForTimeout(500);'',
        ''});'']
   \<and> occurrences ''page.goto('' (steps_to_playwright example_steps ''https://base'') = 1
   \<and> occurrences ''await page.goto('https://x');''
         (steps_to_playwright example_steps ''https://base'') = 1
   \<and> occurrences ''https://base'' (steps_to_playwright example_steps ''https://base'') = 0
   \<and> occurrences ''page.click('' (steps_to_playwright example_steps ''https://base'') = 1
   \<and> occurrences ''await page.click('#btn');''
         (steps_to_playwright example_steps ''https://base'') = 1
   \<and> occurrences ''page.fill('' (steps_to_playwright example_steps ''https://base'') = 1
   \<and> occurrences ''await page.fill('#inp', 'hello');''
         (steps_to_playwright example_steps ''https://base'') = 1
   \<and> occurrences ''page.waitForTimeout('' (steps_to_playwright example_steps ''https://base'') = 1
   \<and> occurrences ''await page.waitForTimeout(500);''
         (steps_to_playwright example_steps ''https://base'') = 1"
  using equal_dicts_equal_output [of steps steps' b]
    four_steps_cypress [of u s1 s2 v d b] four_steps_playwright [of u s1 s2 v d b]
    example_cypress example_cypress_counts example_playwright example_playwright_counts
  by blast

text \<open>
  C8 on the steps of the example with the keys of each dict inserted in another order:
  the lists are equal as lists of dicts, and the outputs are the same texts.
\<close>

theorem C8_deterministic_output_witness:
  "map map_of example_steps_reordered = map map_of example_steps
   \<and> steps_to_cypress example_steps_reordered ''https://base''
       = steps_to_cypress example_steps ''https://base''
   \<and> steps_to_playwright example_steps_reordered ''https://base''
       = steps_to_playwright example_steps ''https://base''"
proof -
  have a: "map map_of example_steps_reordered = map map_of example_steps"
    by (auto simp: example_steps_def example_steps_reordered_def fun_eq_iff)
  from C8_deterministic_output [of example_steps_reordered example_steps "''https://base''"] a
  have "steps_to_cypress example_steps_reordered ''https://base''
       = steps_to_cypress example_steps ''https://base''
     \<and> steps_to_playwright example_steps_reordered ''https://base''
       = steps_to_playwright example_steps ''https://base''"
    by blast
  with a show ?thesis by blast
qed

section \<open>Properties of listing and creation\<close>

subsection \<open>Listing\<close>

lemma scan_keys_matches:
  "list_all (matches flt) jobs \<Longrightarrow> list_all (matches flt) (scan_keys db flt limit keys jobs)"
  by (induction keys arbitrary: jobs) (simp_all split: option.splits)

lemma scan_loop_matches:
  "list_all (matches flt) jobs \<Longrightarrow> list_all (matches flt) (scan_loop db flt limit batches jobs)"
  by (induction batches arbitrary: jobs) (simp_all add: scan_keys_matches)

lemma memory_loop_matches:
  "list_all (matches flt) jobs \<Longrightarrow> list_all (matches flt) (memory_loop flt limit mem jobs)"
  by (induction mem arbitrary: jobs) simp_all

lemma memory_loop_origin:
  "j \<in> set (memory_loop flt limit mem jobs) \<Longrightarrow>
   j \<in> set jobs \<or> (j \<in> set mem \<and> job_id j \<notin> job_id ` set jobs)"
proof (induction mem arbitrary: jobs)
  case Nil
  then show ?case by simp
next
  case (Cons job rest)
  show ?case
  proof (cases "matches flt job \<and> \<not> list_ex (\<lambda>j. job_id j = job_id job) jobs")
    case True
    then have new: "job_id job \<notin> job_id ` set jobs"
      by (auto simp: list_ex_iff)
    show ?thesis
    proof (cases "limit \<le> int (length (jobs @ [job]))")
      case full: True
      with True Cons.prems have "j \<in> set (jobs @ [job])" by simp
      with new show ?thesis by auto
    next
      case False
      with True Cons.prems have "j \<in> set (memory_loop flt limit rest (jobs @ [job]))"
        by simp
      from Cons.IH [OF this] new show ?thesis by auto
    qed
  next
    case False
    with Cons.prems have "j \<in> set (memory_loop flt limit rest jobs)"
      by auto
    from Cons.IH [OF this] show ?thesis by auto
  qed
qed

lemma memory_loop_distinct:
  "distinct (map job_id jobs) \<Longrightarrow> distinct (map job_id (memory_loop flt limit mem jobs))"
proof (induction mem arbitrary: jobs)
  case Nil
  then show ?case by simp
next
  case (Cons job rest)
  show ?case
  proof (cases "matches flt job \<and> \<not> list_ex (\<lambda>j. job_id j = job_id job) jobs")
    case True
    then have "job_id job \<notin> job_id ` set jobs"
      by (auto simp: list_ex_iff)
    with Cons.prems have d: "distinct (map job_id (jobs @ [job]))"
      by simp
    from Cons.IH [OF d] d True show ?thesis
      by simp
  next
    case False
    with Cons.IH [OF Cons.prems] show ?thesis by auto
  qed
qed

lemma scan_keys_distinct:
  assumes "\<And>k j. map_of db k = Some j \<Longrightarrow> k = job_key (job_id j)"
    and "distinct keys"
    and "distinct (map job_id jobs)"
    and "\<forall>j\<in>set jobs. job_key (job_id j) \<notin> set keys"
  shows "distinct (map job_id (scan_keys db flt limit keys jobs)) \<and>
         (\<forall>j\<in>set (scan_keys db flt limit keys jobs).
             j \<in> set jobs \<or> job_key (job_id j) \<in> set keys)"
  using assms(2-)
proof (induction keys arbitrary: jobs)
  case Nil
  then show ?case by simp
next
  case (Cons key keys)
  have dk: "distinct keys" and kn: "key \<notin> set keys"
    using Cons.prems(1) by simp_all
  have out0: "\<forall>j\<in>set jobs. job_key (job_id j) \<notin> set keys"
    using Cons.prems(3) by simp
  note skip = Cons.IH [OF dk Cons.prems(2) out0]
  show ?case
  proof (cases "map_of db key")
    case None
    with skip show ?thesis by auto
  next
    case (Some job)
    then have k: "key = job_key (job_id job)" by (rule assms(1))
    have fresh: "job_id job \<notin> job_id ` set jobs"
      using Cons.prems(3) k by auto
    have d: "distinct (map job_id (jobs @ [job]))"
      using Cons.prems(2) fresh by simp
    have out: "\<forall>j\<in>set (jobs @ [job]). job_key (job_id j) \<notin> set keys"
      using out0 kn k by auto
    note take = Cons.IH [OF dk d out]
    show ?thesis
    proof (cases "matches flt job")
      case True
      show ?thesis
      proof (cases "limit \<le> int (length (jobs @ [job]))")
        case full: True
        have "scan_keys db flt limit (key # keys) jobs = jobs @ [job]"
          using Some True full by simp
        with d k show ?thesis by auto
      next
        case False
        have "scan_keys db flt limit (key # keys) jobs = scan_keys db flt limit keys (jobs @ [job])"
          using Some True False by simp
        with take k show ?thesis by auto
      qed
    next
      case False
      have "scan_keys db flt limit (key # keys) jobs = scan_keys db flt limit keys jobs"
        using Some False by simp
      with skip show ?thesis by auto
    qed
  qed
qed

lemma scan_loop_distinct:
  assumes "\<And>k j. map_of db k = Some j \<Longrightarrow> k = job_key (job_id j)"
    and "distinct (concat batches)"
    and "distinct (map job_id jobs)"
    and "\<forall>j\<in>set jobs. job_key (job_id j) \<notin> set (concat batches)"
  shows "distinct (map job_id (scan_loop db flt limit batches jobs))"
  using assms(2-)
proof (induction batches arbitrary: jobs)
  case Nil
  then show ?case by simp
next
  case (Cons keys batches)
  have dk: "distinct keys" and db: "distinct (concat batches)"
    and dis: "set keys \<inter> set (concat batches) = {}"
    using Cons.prems(1) by auto
  have out: "\<forall>j\<in>set jobs. job_key (job_id j) \<notin> set keys"
    using Cons.prems(3) by auto
  have sk: "distinct (map job_id (scan_keys db flt limit keys jobs)) \<and>
         (\<forall>j\<in>set (scan_keys db flt limit keys jobs).
             j \<in> set jobs \<or> job_key (job_id j) \<in> set keys)"
    by (rule scan_keys_distinct [OF assms(1) dk Cons.prems(2) out])
  have out': "\<forall>j\<in>set (scan_keys db flt limit keys jobs).
      job_key (job_id j) \<notin> set (concat batches)"
    using sk Cons.prems(3) dis by auto
  have "distinct (map job_id (scan_loop db flt limit batches (scan_keys db flt limit keys jobs)))"
    using sk by (intro Cons.IH [OF db _ out']) simp
  with sk show ?case by simp
qed

lemma well_keyed_redis:
  assumes "well_keyed st" and "redis_client st = Some db" and "map_of db k = Some j"
  shows "k = job_key (job_id j)"
  using assms map_of_list_all [of db k j "\<lambda>(k, job). k = job_key (job_id job)"]
  by (simp add: well_keyed_def)

lemma redis_jobs_distinct:
  assumes "well_keyed st" and "distinct (concat batches)"
  shows "distinct (map job_id (redis_jobs st batches flt limit))"
proof (cases "redis_client st")
  case None
  then show ?thesis by (simp add: redis_jobs_def)
next
  case (Some db)
  have "distinct (map job_id (scan_loop db flt limit batches []))"
    by (rule scan_loop_distinct [OF well_keyed_redis [OF assms(1) Some] assms(2)]) simp_all
  then show ?thesis using Some by (simp add: redis_jobs_def)
qed

lemma redis_jobs_matches: "list_all (matches flt) (redis_jobs st batches flt limit)"
  by (simp add: redis_jobs_def scan_loop_matches split: option.splits)

lemma distinct_map_sort_key:
  "distinct (map g (sort_key f xs)) = distinct (map g xs)"
proof -
  have "distinct (map g ys) \<longleftrightarrow> card (g ` set ys) = length ys" for ys
    using card_distinct [of "map g ys"] distinct_card [of "map g ys"] by auto
  then show ?thesis by simp
qed

lemma set_slice_to: "set (slice_to n xs) \<subseteq> set xs"
  by (auto simp: slice_to_def dest: in_set_takeD)

lemma slice_to_take: "\<exists>m. slice_to n xs = take m xs"
  by (auto simp: slice_to_def)

lemma length_slice_to: "0 \<le> n \<Longrightarrow> int (length (slice_to n xs)) \<le> n"
  by (simp add: slice_to_def)

lemma sorted_desc_sort_key:
  "sorted_wrt (\<lambda>a b. created_at b \<le> created_at a) (sort_key (\<lambda>j. - created_at j) xs)"
proof -
  have "sorted (map (\<lambda>j. - created_at j) (sort_key (\<lambda>j. - created_at j) xs))"
    by (rule sorted_sort_key)
  then show ?thesis by (simp add: sorted_map)
qed


text \<open>
  C9, as stated, fails in its last part. A job is created, and completed while the
  \<^verbatim>\<open>setex\<close> of \<^verbatim>\<open>_save_job\<close> raises: the local map holds the \<open>COMPLETED\<close> record, Redis
  still the \<open>PENDING\<close> one. \<^verbatim>\<open>list_jobs\<close> returns the Redis copy, the less advanced one.
\<close>

theorem C9_stale_durable_copy_returned:
  "map_of (memory_store
     (snd (mark_completed (snd (create_job with_redis (at_time 1) ''j1'')) (write_lost 5) ''j1''
        [(''ok'', ''1'')]))) ''j1''
   = Some \<lparr>job_id = ''j1'', status = COMPLETED, created_at = 1, completed_at = Some 5,
           result = Some [(''ok'', ''1'')], error = None\<rparr>
   \<and> redis_client
     (snd (mark_completed (snd (create_job with_redis (at_time 1) ''j1'')) (write_lost 5) ''j1''
        [(''ok'', ''1'')]))
   = Some [(''ai-agent:job:j1'', \<lparr>job_id = ''j1'', status = PENDING, created_at = 1,
           completed_at = None, result = None, error = None\<rparr>)]
   \<and> list_jobs
     (snd (mark_completed (snd (create_job with_redis (at_time 1) ''j1'')) (write_lost 5) ''j1''
        [(''ok'', ''1'')]))
     [[''ai-agent:job:j1'']] None 10
   = [\<lparr>job_id = ''j1'', status = PENDING, created_at = 1, completed_at = None,
       result = None, error = None\<rparr>]"
  by (simp add: list_jobs_def redis_jobs_def slice_to_def matches_def store_defs env_defs)

text \<open>
  C9, amended. For every store, filter and limit, \<^verbatim>\<open>list_jobs\<close> returns at most \<open>limit\<close>
  records when \<open>limit\<close> is not negative, every record matches the filter, and the records
  are in descending order of \<open>created_at\<close>; no job id occurs twice when the entries of
  the store sit under their own ids and the scan yields no key twice; and every record is
  either one that the Redis scan collected or a record of the local map whose id the scan
  did not collect: when an id is in both, the copy returned is the one from Redis whenever
  the scan collected it, whatever the two statuses are.
\<close>

theorem C9_list_jobs:
  "(0 \<le> limit \<longrightarrow> int (length (list_jobs st batches flt limit)) \<le> limit)
    \<and> (\<forall>j\<in>set (list_jobs st batches flt limit). matches flt j)
    \<and> sorted_wrt (\<lambda>a b. created_at b \<le> created_at a) (list_jobs st batches flt limit)
    \<and> (well_keyed st \<and> distinct (concat batches) \<longrightarrow>
          distinct (map job_id (list_jobs st batches flt limit)))
    \<and> (\<forall>j\<in>set (list_jobs st batches flt limit).
          j \<in> set (redis_jobs st batches flt limit)
          \<or> (j \<in> snd ` set (memory_store st)
              \<and> job_id j \<notin> job_id ` set (redis_jobs st batches flt limit)))"
proof -
  let ?r = "redis_jobs st batches flt limit"
  let ?m = "memory_loop flt limit (map snd (memory_store st)) ?r"
  let ?s = "sort_key (\<lambda>j. - created_at j) ?m"
  have l: "list_jobs st batches flt limit = slice_to limit ?s"
    by (simp add: list_jobs_def)
  obtain n where t: "slice_to limit ?s = take n ?s"
    using slice_to_take by blast
  have sub: "set (list_jobs st batches flt limit) \<subseteq> set ?m"
    using set_slice_to [of limit ?s] l by simp
  have 1: "0 \<le> limit \<longrightarrow> int (length (list_jobs st batches flt limit)) \<le> limit"
    by (simp add: l length_slice_to)
  have "list_all (matches flt) ?m"
    by (rule memory_loop_matches [OF redis_jobs_matches])
  then have 2: "\<forall>j\<in>set (list_jobs st batches flt limit). matches flt j"
    using sub by (auto simp: list_all_iff)
  have 3: "sorted_wrt (\<lambda>a b. created_at b \<le> created_at a) (list_jobs st batches flt limit)"
    unfolding l t by (rule sorted_wrt_take [OF sorted_desc_sort_key])
  have 4: "distinct (map job_id (list_jobs st batches flt limit))"
    if "well_keyed st \<and> distinct (concat batches)"
  proof -
    have "distinct (map job_id ?m)"
      using that by (intro memory_loop_distinct redis_jobs_distinct) simp_all
    then have "distinct (map job_id ?s)"
      by (simp add: distinct_map_sort_key)
    then show ?thesis
      unfolding l t by (simp add: take_map [symmetric])
  qed
  have 5: "\<forall>j\<in>set (list_jobs st batches flt limit).
          j \<in> set ?r \<or> (j \<in> snd ` set (memory_store st) \<and> job_id j \<notin> job_id ` set ?r)"
  proof
    fix j
    assume "j \<in> set (list_jobs st batches flt limit)"
    then have "j \<in> set ?m" using sub by blast
    from memory_loop_origin [OF this]
    show "j \<in> set ?r \<or> (j \<in> snd ` set (memory_store st) \<and> job_id j \<notin> job_id ` set ?r)"
      by simp
  qed
  from 1 2 3 4 5 show ?thesis by blast
qed

text \<open>The amended C9 with the filter \<open>COMPLETED\<close> and the limit 2.\<close>

theorem C9_list_jobs_witness:
  "well_keyed example_store
   \<and> distinct (concat [[''ai-agent:job:a''], [''ai-agent:job:d'']])
   \<and> list_jobs example_store [[''ai-agent:job:a''], [''ai-agent:job:d'']] (Some COMPLETED) 2
     = [\<lparr>job_id = ''d'', status = COMPLETED, created_at = 9, completed_at = Some 10,
         result = Some [], error = None\<rparr>,
        \<lparr>job_id = ''c'', status = COMPLETED, created_at = 5, completed_at = Some 6,
         result = Some [], error = None\<rparr>]
   \<and> distinct (map job_id
       (list_jobs example_store [[''ai-agent:job:a''], [''ai-agent:job:d'']] (Some COMPLETED) 2))"
proof -
  have a: "well_keyed example_store"
    by (simp add: well_keyed_def example_store_def job_key_def)
  have b: "distinct (concat [[''ai-agent:job:a''], [''ai-agent:job:d'']])"
    by simp
  have c: "list_jobs example_store [[''ai-agent:job:a''], [''ai-agent:job:d'']] (Some COMPLETED) 2
     = [\<lparr>job_id = ''d'', status = COMPLETED, created_at = 9, completed_at = Some 10,
         result = Some [], error = None\<rparr>,
        \<lparr>job_id = ''c'', status = COMPLETED, created_at = 5, completed_at = Some 6,
         result = Some [], error = None\<rparr>]"
    by (simp add: list_jobs_def redis_jobs_def slice_to_def matches_def example_store_def)
  from C9_list_jobs [of 2 example_store "[[''ai-agent:job:a''], [''ai-agent:job:d'']]"
      "Some COMPLETED"] a b
  have "distinct (map job_id
       (list_jobs example_store [[''ai-agent:job:a''], [''ai-agent:job:d'']] (Some COMPLETED) 2))"
    by blast
  with a b c show ?thesis
    by simp
qed

subsection \<open>Creating over an existing id\<close>

text \<open>
  C10, as stated, fails. A job is created and completed with Redis reachable; then
  \<^verbatim>\<open>create_job\<close> is called on the same id while the \<^verbatim>\<open>setex\<close> of \<^verbatim>\<open>_save_job\<close> raises. The
  call returns the fresh \<open>PENDING\<close> record, but the record in Redis is not replaced: it is
  still the \<open>COMPLETED\<close> one, and it is the one that \<^verbatim>\<open>get_job\<close> and \<^verbatim>\<open>list_jobs\<close> return.
\<close>

theorem C10_lost_write_keeps_old_record:
  "fst (create_job
      (snd (mark_completed (snd (create_job with_redis (at_time 1) ''j1'')) (at_time 2) ''j1''
         [(''ok'', ''1'')]))
      (write_lost 7) ''j1'')
   = \<lparr>job_id = ''j1'', status = PENDING, created_at = 7, completed_at = None,
      result = None, error = None\<rparr>
   \<and> get_job
     (snd (create_job
        (snd (mark_completed (snd (create_job with_redis (at_time 1) ''j1'')) (at_time 2) ''j1''
           [(''ok'', ''1'')]))
        (write_lost 7) ''j1''))
     (at_time 8) ''j1''
   = Some \<lparr>job_id = ''j1'', status = COMPLETED, created_at = 1, completed_at = Some 2,
           result = Some [(''ok'', ''1'')], error = None\<rparr>
   \<and> list_jobs
     (snd (create_job
        (snd (mark_completed (snd (create_job with_redis (at_time 1) ''j1'')) (at_time 2) ''j1''
           [(''ok'', ''1'')]))
        (write_lost 7) ''j1''))
     [[''ai-agent:job:j1'']] None 10
   = [\<lparr>job_id = ''j1'', status = COMPLETED, created_at = 1, completed_at = Some 2,
       result = Some [(''ok'', ''1'')], error = None\<rparr>]"
  by (simp add: list_jobs_def redis_jobs_def slice_to_def matches_def store_defs env_defs)

text \<open>
  C10, amended. \<^verbatim>\<open>create_job\<close> does not look at what the store holds: for an id that
  already has a record, whatever its status, it returns a fresh \<open>PENDING\<close> record created
  now with \<open>completed_at\<close>, \<open>result\<close> and \<open>error\<close> unset, and the local map holds that
  record under the id. Redis holds it when the \<^verbatim>\<open>setex\<close> goes through, and then (or without
  a Redis client) \<^verbatim>\<open>get_job\<close> returns it. When the \<^verbatim>\<open>setex\<close> raises, Redis is left as it
  was, and a \<^verbatim>\<open>get_job\<close> whose read goes through returns the record that Redis held for
  the id before.
\<close>

theorem C10_create_job_replaces:
  assumes "get_job st env0 jid = Some old"
  shows "fst (create_job st env jid) =
           \<lparr>job_id = jid, status = PENDING, created_at = now env, completed_at = None,
            result = None, error = None\<rparr>
    \<and> map_of (memory_store (snd (create_job st env jid))) jid = Some (fst (create_job st env jid))
    \<and> (\<forall>db. redis_client st = Some db \<and> set_ok env \<longrightarrow>
          (\<exists>db'. redis_client (snd (create_job st env jid)) = Some db'
             \<and> map_of db' (job_key jid) = Some (fst (create_job st env jid))))
    \<and> (redis_client st = None \<or> set_ok env \<longrightarrow>
          get_job (snd (create_job st env jid)) env' jid = Some (fst (create_job st env jid)))
    \<and> (\<forall>db. redis_client st = Some db \<and> \<not> set_ok env \<longrightarrow>
          redis_client (snd (create_job st env jid)) = Some db
          \<and> (\<forall>kept. get_ok env' \<and> map_of db (job_key jid) = Some kept \<longrightarrow>
                get_job (snd (create_job st env jid)) env' jid = Some kept))"
  by (auto simp: create_job_def new_job_def save_job_def get_job_def update_conv'
      split: option.splits)

text \<open>C10, amended, on a job that was \<open>COMPLETED\<close>.\<close>

theorem C10_create_job_replaces_witness:
  "get_job (snd (mark_completed (snd (create_job with_redis (at_time 1) ''j1'')) (at_time 2)
      ''j1'' [(''ok'', ''1'')])) (at_time 3) ''j1''
    = Some \<lparr>job_id = ''j1'', status = COMPLETED, created_at = 1, completed_at = Some 2,
            result = Some [(''ok'', ''1'')], error = None\<rparr>
   \<and> get_job (snd (create_job (snd (mark_completed (snd (create_job with_redis (at_time 1)
      ''j1'')) (at_time 2) ''j1'' [(''ok'', ''1'')])) (at_time 7) ''j1'')) (at_time 8) ''j1''
    = Some \<lparr>job_id = ''j1'', status = PENDING, created_at = 7, completed_at = None,
            result = None, error = None\<rparr>"
proof -
  let ?st = "snd (mark_completed (snd (create_job with_redis (at_time 1) ''j1'')) (at_time 2)
      ''j1'' [(''ok'', ''1'')])"
  have a: "get_job ?st (at_time 3) ''j1''
    = Some \<lparr>job_id = ''j1'', status = COMPLETED, created_at = 1, completed_at = Some 2,
            result = Some [(''ok'', ''1'')], error = None\<rparr>"
    by (simp add: store_defs env_defs)
  from C10_create_job_replaces [OF a, of "at_time 7" "at_time 8"] a show ?thesis
    by (simp add: at_time_def)
qed

end
